theory Spec2Isabelle
  imports Complex_Main
begin

section \<open>CICLA bike comfort map: the sketch as HOL functions\<close>

text \<open>
  The sketch \<^verbatim>\<open>sketch.js\<close> has two parts: \<^verbatim>\<open>MapAgent\<close> fills the global
  \<^verbatim>\<open>comfortMap\<close> once per frame, and every \<^verbatim>\<open>Cyclist\<close> reads it through
  \<^verbatim>\<open>comfortAt\<close>, steers, moves and respawns. JavaScript numbers are read as
  real numbers: rounding, infinities and NaN of IEEE doubles are outside this model, and the
  theorems that divide name the condition under which the source does not divide by zero.
  Drawing calls (\<^verbatim>\<open>fill\<close>, \<^verbatim>\<open>rect\<close>, \<^verbatim>\<open>vertex\<close>, ...) change no
  variable of the sketch and are left out. Values drawn by \<^verbatim>\<open>random\<close> and the
  values of \<^verbatim>\<open>noise\<close> are arguments of the functions that consume them.
\<close>

subsection \<open>Data\<close>

text \<open>Object literals \<^verbatim>\<open>{ x: ..., y: ... }\<close>: eco-pods and trail entries.\<close>

record point =
  pt_x :: real
  pt_y :: real

text \<open>A two-dimensional \<^verbatim>\<open>p5.Vector\<close>, as \<^verbatim>\<open>createVector(x, y)\<close> builds it.\<close>

record vec =
  vec_x :: real
  vec_y :: real

text \<open>
  The globals of the sketch. \<^verbatim>\<open>width\<close> and \<^verbatim>\<open>height\<close> are the globals that
  \<^verbatim>\<open>createCanvas\<close> sets, \<^verbatim>\<open>frameCount\<close> the frame counter of the library.
\<close>

record sketch =
  width :: real
  height :: real
  cols :: nat
  rows :: nat
  comfortMap :: "real list list"
  ecoPods :: "point list"
  weather :: string
  frameCount :: nat

text \<open>
  The fields of a \<^verbatim>\<open>Cyclist\<close>. The constructor calls \<^verbatim>\<open>respawn\<close> before any
  \<^verbatim>\<open>perceive\<close>, so \<^verbatim>\<open>perceivedGradient\<close> and \<^verbatim>\<open>localComfort\<close> start as
  \<^verbatim>\<open>undefined\<close>: that is \<open>None\<close>.
\<close>

record cyclist =
  cyc_x :: real
  cyc_y :: real
  vel :: vec
  trail :: "point list"
  perceivedGradient :: "vec option"
  localComfort :: "real option"

datatype js_error = TypeError

subsection \<open>Library functions the sketch calls\<close>

text \<open>
  Modelled from the spec: the p5.js library is not part of the repository. The spec calls
  \<^verbatim>\<open>constrain\<close> clamping to a range; the library computes
  \<^verbatim>\<open>Math.max(Math.min(n, high), low)\<close>.
\<close>

definition constrain :: "'a::linorder \<Rightarrow> 'a \<Rightarrow> 'a \<Rightarrow> 'a" where
  "constrain n low high = max (min n high) low"

text \<open>
  Modelled from the spec: \<^verbatim>\<open>map\<close> of p5.js, the "linear map" and "linear
  interpolation" of the spec, from the range \<open>[start1, stop1]\<close> to \<open>[start2, stop2]\<close>.
\<close>

definition map_p5 :: "real \<Rightarrow> real \<Rightarrow> real \<Rightarrow> real \<Rightarrow> real \<Rightarrow> real" where
  "map_p5 n start1 stop1 start2 stop2 =
     (n - start1) / (stop1 - start1) * (stop2 - start2) + start2"

text \<open>Modelled from the spec: \<^verbatim>\<open>dist\<close> of p5.js, the Euclidean distance of the spec.\<close>

definition dist_p5 :: "real \<Rightarrow> real \<Rightarrow> real \<Rightarrow> real \<Rightarrow> real" where
  "dist_p5 x1 y1 x2 y2 = sqrt ((x2 - x1)\<^sup>2 + (y2 - y1)\<^sup>2)"

text \<open>Modelled from the spec: \<^verbatim>\<open>sq\<close> of p5.js, the square in the Gaussian falloff.\<close>

definition sq :: "real \<Rightarrow> real" where
  "sq n = n * n"

text \<open>
  Modelled from the spec: \<^verbatim>\<open>createVector\<close> of p5.js, restricted to the two components
  the sketch passes; the spec speaks of velocity and gradient vectors with two components.
\<close>

definition createVector :: "real \<Rightarrow> real \<Rightarrow> vec" where
  "createVector a b = \<lparr>vec_x = a, vec_y = b\<rparr>"

text \<open>Modelled from the spec: \<^verbatim>\<open>p5.Vector.mag\<close>, the magnitude of the spec.\<close>

definition mag :: "vec \<Rightarrow> real" where
  "mag v = sqrt (vec_x v * vec_x v + vec_y v * vec_y v)"

text \<open>
  Modelled from the spec: \<^verbatim>\<open>p5.Vector.mult\<close> by a number, the scaling in "0.75 times
  old velocity" of the spec; both components are multiplied.
\<close>

definition mult :: "vec \<Rightarrow> real \<Rightarrow> vec" where
  "mult v n = \<lparr>vec_x = vec_x v * n, vec_y = vec_y v * n\<rparr>"

text \<open>Modelled from the spec: \<^verbatim>\<open>p5.Vector.add\<close>, the additive blend of the spec.\<close>

definition add :: "vec \<Rightarrow> vec \<Rightarrow> vec" where
  "add v w = \<lparr>vec_x = vec_x v + vec_x w, vec_y = vec_y v + vec_y w\<rparr>"

text \<open>
  Modelled from the spec: \<^verbatim>\<open>p5.Vector.normalize\<close>, "normalize the direction" of the
  spec. The library divides by the magnitude when that is not 0 and leaves the zero vector as
  it is.
\<close>

definition normalize_vec :: "vec \<Rightarrow> vec" where
  "normalize_vec v = (let len = mag v in if len \<noteq> 0 then mult v (1 / len) else v)"

subsection \<open>Setup\<close>

text \<open>\<^verbatim>\<open>cellW = width / cols\<close> and \<^verbatim>\<open>cellH = height / rows\<close>, assigned once in \<^verbatim>\<open>setup\<close>.\<close>

definition cellW :: "sketch \<Rightarrow> real" where
  "cellW s = width s / real (cols s)"

definition cellH :: "sketch \<Rightarrow> real" where
  "cellH s = height s / real (rows s)"

text \<open>
  The state \<^verbatim>\<open>setup\<close> leaves: a 600 by 900 canvas, 70 by 105 cells, a comfort map of
  zeros and four eco-pods. The cyclists are created from random draws and are kept apart.
\<close>

definition setup_sketch :: sketch where
  "setup_sketch =
     \<lparr>width = 600, height = 900, cols = 70, rows = 105,
      comfortMap = replicate 70 (replicate 105 0),
      ecoPods =
        [\<lparr>pt_x = 600 * 0.3, pt_y = 900 * 0.25\<rparr>,
         \<lparr>pt_x = 600 * 0.65, pt_y = 900 * 0.35\<rparr>,
         \<lparr>pt_x = 600 * 0.4, pt_y = 900 * 0.6\<rparr>,
         \<lparr>pt_x = 600 * 0.7, pt_y = 900 * 0.8\<rparr>],
      weather = ''sunny'', frameCount = 0\<rparr>"

text \<open>The shape \<^verbatim>\<open>setup\<close> gives the comfort map: \<open>cols\<close> columns of \<open>rows\<close> cells.\<close>

definition grid_ok :: "sketch \<Rightarrow> bool" where
  "grid_ok s =
     (length (comfortMap s) = cols s \<and> list_all (\<lambda>c. length c = rows s) (comfortMap s))"

subsection \<open>MapAgent\<close>

text \<open>
  The loop over the eco-pods in \<^verbatim>\<open>MapAgent.act\<close>:
  \<^verbatim>\<open>let minPod = 9999; for (let p of ecoPods) { let dp = dist(x, y, p.x, p.y); if (dp < minPod) minPod = dp; }\<close>
\<close>

fun minPod_loop :: "real \<Rightarrow> real \<Rightarrow> point list \<Rightarrow> real \<Rightarrow> real" where
  "minPod_loop x y [] minPod = minPod"
| "minPod_loop x y (p # ps) minPod =
     (let dp = dist_p5 x y (pt_x p) (pt_y p)
      in minPod_loop x y ps (if dp < minPod then dp else minPod))"

definition eco_at :: "sketch \<Rightarrow> real \<Rightarrow> real \<Rightarrow> real" where
  "eco_at s x y =
     (let minPod = minPod_loop x y (ecoPods s) 9999;
          eco = map_p5 minPod 0 (width s * 0.4) 1 0
      in constrain eco 0 1)"

definition rain_at :: "sketch \<Rightarrow> real \<Rightarrow> real \<Rightarrow> real" where
  "rain_at s x y =
     (let t = real (frameCount s) * 0.01;
          rainCx = width s * (0.5 + 0.3 * sin (t * 0.7));
          rainCy = height s * (0.5 + 0.2 * cos (t * 0.4));
          rainRadius = width s * 0.45;
          dRain = dist_p5 x y rainCx rainCy
      in exp (- sq (dRain / rainRadius)))"

text \<open>The weather-dependent combination, before the final \<^verbatim>\<open>constrain\<close>.\<close>

definition blend :: "string \<Rightarrow> real \<Rightarrow> real \<Rightarrow> real \<Rightarrow> real \<Rightarrow> real" where
  "blend mode temp eco rain base =
     (if mode = ''sunny'' then
        0.35 * (1 - temp) + 0.35 * eco + 0.20 * (1 - rain) + 0.10 * base
      else if mode = ''rain'' then
        0.15 * (1 - temp) + 0.45 * eco + 0.30 * (1 - rain) + 0.10 * base
      else
        0.55 * (1 - temp) + 0.20 * eco + 0.15 * (1 - rain) + 0.10 * base)"

text \<open>The body of the two loops for the cell \<open>(i, j)\<close>: the value stored at \<^verbatim>\<open>comfortMap[i][j]\<close>.\<close>

definition cell_comfort :: "sketch \<Rightarrow> string \<Rightarrow> (real \<Rightarrow> real \<Rightarrow> real) \<Rightarrow> nat \<Rightarrow> nat \<Rightarrow> real" where
  "cell_comfort s mode noise i j =
     (let x = (real i + 0.5) * cellW s;
          y = (real j + 0.5) * cellH s;
          base = noise (real i * 0.08) (real j * 0.08);
          temp = map_p5 (real j) 0 (real (rows s) - 1) 1 0;
          rain = rain_at s x y;
          eco = eco_at s x y;
          comfort = blend mode temp eco rain base
      in constrain comfort 0 1)"

text \<open>
  \<^verbatim>\<open>MapAgent.perceive\<close> and \<^verbatim>\<open>MapAgent.decide\<close> copy the global \<^verbatim>\<open>weather\<close>
  into \<^verbatim>\<open>this.mode\<close>; \<^verbatim>\<open>MapAgent.act\<close> runs the two loops, storing into the
  comfort map in place. The result is the comfort map after the pass.
\<close>

definition MapAgent_decide :: "sketch \<Rightarrow> string" where
  "MapAgent_decide s = weather s"

definition store_cell :: "real list list \<Rightarrow> nat \<Rightarrow> nat \<Rightarrow> real \<Rightarrow> real list list" where
  "store_cell g i j v = g[i := (g ! i)[j := v]]"

definition MapAgent_act :: "sketch \<Rightarrow> string \<Rightarrow> (real \<Rightarrow> real \<Rightarrow> real) \<Rightarrow> real list list" where
  "MapAgent_act s mode noise =
     foldl (\<lambda>g i. foldl (\<lambda>g j. store_cell g i j (cell_comfort s mode noise i j)) g [0..<rows s])
       (comfortMap s) [0..<cols s]"

subsection \<open>Reading the comfort map\<close>

text \<open>
  \<^verbatim>\<open>comfortAt(x, y)\<close>. The indices are floored and constrained before the read
  \<^verbatim>\<open>comfortMap[i][j]\<close>; \<open>comfortAt_read_in_range\<close> below shows that the read stays inside
  a map of the shape \<^verbatim>\<open>setup\<close> builds, so the list access is the array access.
\<close>

definition comfortAt :: "sketch \<Rightarrow> real \<Rightarrow> real \<Rightarrow> real" where
  "comfortAt s x y =
     (if x < 0 \<or> x \<ge> width s \<or> y < 0 \<or> y \<ge> height s then 0
      else
        let i = \<lfloor>x / cellW s\<rfloor>;
            j = \<lfloor>y / cellH s\<rfloor>;
            i = constrain i 0 (int (cols s) - 1);
            j = constrain j 0 (int (rows s) - 1)
        in comfortMap s ! nat i ! nat j)"

subsection \<open>Cyclist\<close>

text \<open>
  The values \<^verbatim>\<open>respawn\<close> draws: the index of the eco-pod that \<^verbatim>\<open>random(ecoPods)\<close>
  picks, \<^verbatim>\<open>random(TWO_PI)\<close>, \<^verbatim>\<open>random(10, 60)\<close> and the two \<^verbatim>\<open>random(-1, 1)\<close>.
\<close>

record respawn_draws =
  rnd_pod :: nat
  rnd_angle :: real
  rnd_radius :: real
  rnd_vel_x :: real
  rnd_vel_y :: real

text \<open>What the library promises about these draws: \<^verbatim>\<open>random(a, b)\<close> lies in \<open>[a, b)\<close>.\<close>

definition draws_ok :: "sketch \<Rightarrow> respawn_draws \<Rightarrow> bool" where
  "draws_ok s d =
     (rnd_pod d < length (ecoPods s) \<and>
      0 \<le> rnd_angle d \<and> rnd_angle d < 2 * pi \<and>
      10 \<le> rnd_radius d \<and> rnd_radius d < 60 \<and>
      -1 \<le> rnd_vel_x d \<and> rnd_vel_x d < 1 \<and>
      -1 \<le> rnd_vel_y d \<and> rnd_vel_y d < 1)"

text \<open>
  \<^verbatim>\<open>respawn\<close>. On an empty \<^verbatim>\<open>ecoPods\<close> the library returns \<^verbatim>\<open>undefined\<close> and
  \<^verbatim>\<open>p.x\<close> raises a TypeError: no index is inside the array then.
\<close>

definition respawn :: "sketch \<Rightarrow> cyclist \<Rightarrow> respawn_draws \<Rightarrow> js_error + cyclist" where
  "respawn s c d =
     (if rnd_pod d < length (ecoPods s) then
        let p = ecoPods s ! rnd_pod d;
            angle = rnd_angle d;
            radius = rnd_radius d
        in Inr (c\<lparr>cyc_x := pt_x p + cos angle * radius,
                  cyc_y := pt_y p + sin angle * radius,
                  vel := createVector (rnd_vel_x d) (rnd_vel_y d),
                  trail := []\<rparr>)
      else Inl TypeError)"

text \<open>The constructor: an empty trail, then \<^verbatim>\<open>respawn\<close>; the other fields are not set yet.\<close>

definition Cyclist_new :: "sketch \<Rightarrow> respawn_draws \<Rightarrow> js_error + cyclist" where
  "Cyclist_new s d =
     respawn s \<lparr>cyc_x = 0, cyc_y = 0, vel = createVector 0 0, trail = [],
                perceivedGradient = None, localComfort = None\<rparr> d"

definition perceive :: "sketch \<Rightarrow> cyclist \<Rightarrow> cyclist" where
  "perceive s c =
     (let eps = 10;
          cCenter = comfortAt s (cyc_x c) (cyc_y c);
          cRight = comfortAt s (cyc_x c + eps) (cyc_y c);
          cLeft = comfortAt s (cyc_x c - eps) (cyc_y c);
          cUp = comfortAt s (cyc_x c) (cyc_y c - eps);
          cDown = comfortAt s (cyc_x c) (cyc_y c + eps);
          gradX = (cRight - cLeft) / (2 * eps);
          gradY = (cDown - cUp) / (2 * eps)
      in c\<lparr>perceivedGradient := Some (createVector gradX gradY),
            localComfort := Some cCenter\<rparr>)"

text \<open>
  \<^verbatim>\<open>decide\<close>, with the two values \<^verbatim>\<open>random(-0.5, 0.5)\<close> would return as
  arguments. Before the first \<^verbatim>\<open>perceive\<close> there is no gradient to copy.
\<close>

definition decide :: "cyclist \<Rightarrow> real \<Rightarrow> real \<Rightarrow> js_error + cyclist" where
  "decide c r1 r2 =
     (case perceivedGradient c of
        None \<Rightarrow> Inl TypeError
      | Some pg \<Rightarrow>
          let g = (if mag pg < 0.0005 then createVector r1 r2 else pg);
              g = normalize_vec g;
              v = mult (vel c) 0.75;
              g = mult g 0.25;
              v = add v g;
              maxSpeed = 2.0;
              v = (if mag v > maxSpeed then mult (normalize_vec v) maxSpeed else v)
          in Inr (c\<lparr>vel := v\<rparr>))"

text \<open>\<^verbatim>\<open>this.trail.push(p); if (this.trail.length > 80) this.trail.shift();\<close>\<close>

definition trail_push :: "'a list \<Rightarrow> 'a \<Rightarrow> 'a list" where
  "trail_push t p = (let t = t @ [p] in if length t > 80 then tl t else t)"

text \<open>The condition of the \<^verbatim>\<open>if\<close> in \<^verbatim>\<open>act\<close>; \<^verbatim>\<open>undefined < 0.18\<close> is false.\<close>

definition respawn_cond :: "sketch \<Rightarrow> cyclist \<Rightarrow> bool" where
  "respawn_cond s c =
     (cyc_x c < -40 \<or> cyc_x c > width s + 40 \<or>
      cyc_y c < -40 \<or> cyc_y c > height s + 40 \<or>
      (case localComfort c of None \<Rightarrow> False | Some l \<Rightarrow> l < 0.18))"

text \<open>The first two steps of \<^verbatim>\<open>act\<close>: move, then add the new position to the trail.\<close>

definition act_move :: "cyclist \<Rightarrow> cyclist" where
  "act_move c =
     (let c = c\<lparr>cyc_x := cyc_x c + vec_x (vel c), cyc_y := cyc_y c + vec_y (vel c)\<rparr>
      in c\<lparr>trail := trail_push (trail c) \<lparr>pt_x = cyc_x c, pt_y = cyc_y c\<rparr>\<rparr>)"

definition act :: "sketch \<Rightarrow> cyclist \<Rightarrow> respawn_draws \<Rightarrow> js_error + cyclist" where
  "act s c d =
     (let c = act_move c
      in if respawn_cond s c then respawn s c d else Inr c)"

text \<open>
  One cyclist in one call of \<^verbatim>\<open>draw\<close>: \<^verbatim>\<open>c.perceive(); c.decide(); c.act();\<close>
  with the draws of that frame.
\<close>

record frame_draws =
  wander_x :: real
  wander_y :: real
  on_respawn :: respawn_draws

definition Cyclist_frame :: "sketch \<Rightarrow> cyclist \<Rightarrow> frame_draws \<Rightarrow> js_error + cyclist" where
  "Cyclist_frame s c d =
     (case decide (perceive s c) (wander_x d) (wander_y d) of
        Inl e \<Rightarrow> Inl e
      | Inr c' \<Rightarrow> act s c' (on_respawn d))"

text \<open>A run of frames: each frame has its own state of the sketch and its own draws.\<close>

fun Cyclist_frames :: "cyclist \<Rightarrow> (sketch \<times> frame_draws) list \<Rightarrow> js_error + cyclist" where
  "Cyclist_frames c [] = Inr c"
| "Cyclist_frames c ((s, d) # fs) =
     (case Cyclist_frame s c d of Inl e \<Rightarrow> Inl e | Inr c' \<Rightarrow> Cyclist_frames c' fs)"

text \<open>
  The positions a cyclist has after each frame of a run, in order: the entries that the
  calls of \<^verbatim>\<open>act\<close> push on the trail.
\<close>

fun Cyclist_path :: "cyclist \<Rightarrow> (sketch \<times> frame_draws) list \<Rightarrow> point list" where
  "Cyclist_path c [] = []"
| "Cyclist_path c ((s, d) # fs) =
     (case Cyclist_frame s c d of
        Inl e \<Rightarrow> []
      | Inr c' \<Rightarrow> \<lparr>pt_x = cyc_x c', pt_y = cyc_y c'\<rparr> # Cyclist_path c' fs)"

text \<open>A run in which no call of \<^verbatim>\<open>act\<close> takes the branch that respawns.\<close>

fun no_respawn :: "cyclist \<Rightarrow> (sketch \<times> frame_draws) list \<Rightarrow> bool" where
  "no_respawn c [] = True"
| "no_respawn c ((s, d) # fs) =
     (case decide (perceive s c) (wander_x d) (wander_y d) of
        Inl e \<Rightarrow> False
      | Inr c1 \<Rightarrow> \<not> respawn_cond s (act_move c1) \<and> no_respawn (act_move c1) fs)"

text \<open>The blend weights as the spec tabulates them, in the order (1 - temp), eco, (1 - rain), base.\<close>

definition spec_weights :: "string \<Rightarrow> real \<times> real \<times> real \<times> real" where
  "spec_weights mode =
     (if mode = ''sunny'' then (0.35, 0.35, 0.20, 0.10)
      else if mode = ''rain'' then (0.15, 0.45, 0.30, 0.10)
      else (0.55, 0.20, 0.15, 0.10))"

subsection \<open>Sample states\<close>

text \<open>The sketch after \<^verbatim>\<open>setup\<close> with every cell of the comfort map at 0.5.\<close>

definition half_map :: sketch where
  "half_map = setup_sketch\<lparr>comfortMap := replicate 70 (replicate 105 0.5)\<rparr>"

text \<open>Draws that put a respawning cyclist 10 units to the right of the first eco-pod, at rest.\<close>

definition still_draws :: respawn_draws where
  "still_draws = \<lparr>rnd_pod = 0, rnd_angle = 0, rnd_radius = 10, rnd_vel_x = 0, rnd_vel_y = 0\<rparr>"

text \<open>
  A cyclist that the next frame moves to exactly \<open>x = width + 40\<close> on the canvas of
  \<^verbatim>\<open>setup\<close>, and its state after that move.
\<close>

definition margin_rider :: cyclist where
  "margin_rider =
     \<lparr>cyc_x = 639, cyc_y = 450, vel = createVector (4 / 3) 0, trail = [],
      perceivedGradient = None, localComfort = None\<rparr>"

definition margin_rider_moved :: cyclist where
  "margin_rider_moved =
     \<lparr>cyc_x = 640, cyc_y = 450, vel = createVector 1 0, trail = [\<lparr>pt_x = 640, pt_y = 450\<rparr>],
      perceivedGradient = Some (createVector 0 0), localComfort = Some 0\<rparr>"

text \<open>A cyclist on a flat field, moving faster than the cap.\<close>

definition fast_rider :: cyclist where
  "fast_rider =
     \<lparr>cyc_x = 300, cyc_y = 450, vel = createVector 3 4, trail = [],
      perceivedGradient = Some (createVector 0 0), localComfort = Some 0.5\<rparr>"

text \<open>
  The cyclist the constructor makes from \<open>still_draws\<close>, and that cyclist after a
  \<^verbatim>\<open>perceive\<close> on \<open>half_map\<close>.
\<close>

definition new_rider :: cyclist where
  "new_rider =
     \<lparr>cyc_x = 190, cyc_y = 225, vel = createVector 0 0, trail = [],
      perceivedGradient = None, localComfort = None\<rparr>"

text \<open>A frame whose wander draws are both 0.\<close>

definition calm_frame :: frame_draws where
  "calm_frame = \<lparr>wander_x = 0, wander_y = 0, on_respawn = still_draws\<rparr>"

definition new_rider_seen :: cyclist where
  "new_rider_seen =
     \<lparr>cyc_x = 190, cyc_y = 225, vel = createVector 0 0, trail = [],
      perceivedGradient = Some (createVector 0 0), localComfort = Some 0.5\<rparr>"

text \<open>A frame whose wander draw points along the x axis.\<close>

definition drift_frame :: frame_draws where
  "drift_frame = \<lparr>wander_x = 0.25, wander_y = 0, on_respawn = still_draws\<rparr>"

text \<open>The sketch after \<^verbatim>\<open>setup\<close> with no eco-pod.\<close>

definition no_pods :: sketch where
  "no_pods = setup_sketch\<lparr>ecoPods := []\<rparr>"

text \<open>
  The scenario of the spec: a 4 by 4 grid on the 600 by 900 canvas, one eco-pod at the centre of
  the canvas, sunny weather, at frame 0.
\<close>

definition grid4 :: sketch where
  "grid4 =
     \<lparr>width = 600, height = 900, cols = 4, rows = 4,
      comfortMap = replicate 4 (replicate 4 0),
      ecoPods = [\<lparr>pt_x = 300, pt_y = 450\<rparr>],
      weather = ''sunny'', frameCount = 0\<rparr>"

text \<open>The same scenario at frame \<open>n\<close>.\<close>

definition grid4_at :: "nat \<Rightarrow> sketch" where
  "grid4_at n = grid4\<lparr>frameCount := n\<rparr>"

text \<open>
  A cyclist whose last sample of the field was 0.1, the state after its move, and the state
  \<^verbatim>\<open>respawn\<close> turns that into with \<open>still_draws\<close>.
\<close>

definition low_rider :: cyclist where
  "low_rider =
     \<lparr>cyc_x = 300, cyc_y = 450, vel = createVector 1 0, trail = [],
      perceivedGradient = Some (createVector 0 0), localComfort = Some 0.1\<rparr>"

definition low_rider_moved :: cyclist where
  "low_rider_moved =
     \<lparr>cyc_x = 301, cyc_y = 450, vel = createVector 1 0, trail = [\<lparr>pt_x = 301, pt_y = 450\<rparr>],
      perceivedGradient = Some (createVector 0 0), localComfort = Some 0.1\<rparr>"

definition low_rider_respawned :: cyclist where
  "low_rider_respawned =
     \<lparr>cyc_x = 190, cyc_y = 225, vel = createVector 0 0, trail = [],
      perceivedGradient = Some (createVector 0 0), localComfort = Some 0.1\<rparr>"

text \<open>
  The sketch as \<^verbatim>\<open>setup\<close> leaves it, at any frame, in any weather and with any contents of
  the comfort map.
\<close>

definition reference_sketch :: "sketch \<Rightarrow> bool" where
  "reference_sketch s =
     (width s = 600 \<and> height s = 900 \<and> cols s = 70 \<and> rows s = 105 \<and>
      ecoPods s = ecoPods setup_sketch \<and> grid_ok s)"

text \<open>The sketch after the three calls on \<^verbatim>\<open>mapAgent\<close> in \<^verbatim>\<open>draw\<close>.\<close>

definition MapAgent_frame :: "sketch \<Rightarrow> (real \<Rightarrow> real \<Rightarrow> real) \<Rightarrow> sketch" where
  "MapAgent_frame s noise = s\<lparr>comfortMap := MapAgent_act s (MapAgent_decide s) noise\<rparr>"

section \<open>The comfort field\<close>

lemma constrain_bounds:
  fixes n :: real
  shows "0 \<le> constrain n 0 1" and "constrain n 0 1 \<le> 1"
  by (simp_all add: constrain_def)

lemma inner_loop_length:
  "length (foldl (\<lambda>g j. store_cell g i j (f j)) g js) = length g"
  by (induction js arbitrary: g) (simp_all add: store_cell_def)

lemma inner_loop_row_length:
  "length (foldl (\<lambda>g j. store_cell g i j (f j)) g js ! k) = length (g ! k)"
proof (induction js arbitrary: g)
  case Nil
  show ?case by simp
next
  case (Cons j js)
  have "length (store_cell g i j (f j) ! k) = length (g ! k)"
    by (cases "i < length g") (simp_all add: store_cell_def nth_list_update list_update_beyond)
  with Cons show ?case by simp
qed

lemma inner_loop_other:
  "k \<noteq> i \<Longrightarrow> foldl (\<lambda>g j. store_cell g i j (f j)) g js ! k = g ! k"
  by (induction js arbitrary: g) (simp_all add: store_cell_def)

lemma inner_loop_cell:
  assumes "i < length g" and "n \<le> length (g ! i)" and "j < n"
  shows "foldl (\<lambda>g j. store_cell g i j (f j)) g [0..<n] ! i ! j = f j"
  using assms
proof (induction n arbitrary: j)
  case 0
  then show ?case by simp
next
  case (Suc n)
  let ?g = "foldl (\<lambda>g j. store_cell g i j (f j)) g [0..<n]"
  have len: "length ?g = length g" and row: "length (?g ! i) = length (g ! i)"
    by (rule inner_loop_length, rule inner_loop_row_length)
  show ?case
  proof (cases "j = n")
    case True
    with Suc.prems len row show ?thesis by (simp add: store_cell_def)
  next
    case False
    with Suc.prems have "j < n" by simp
    with Suc have "?g ! i ! j = f j" by simp
    with Suc.prems len False show ?thesis by (simp add: store_cell_def)
  qed
qed

lemma outer_loop_cell:
  assumes "m \<le> length g" and "\<forall>k < m. r \<le> length (g ! k)" and "i < m" and "j < r"
  shows "foldl (\<lambda>g i. foldl (\<lambda>g j. store_cell g i j (f i j)) g [0..<r]) g [0..<m] ! i ! j = f i j"
  using assms
proof (induction m arbitrary: i)
  case 0
  then show ?case by simp
next
  case (Suc m)
  let ?g = "foldl (\<lambda>g i. foldl (\<lambda>g j. store_cell g i j (f i j)) g [0..<r]) g [0..<m]"
  have len: "length ?g = length g"
    by (induction m) (simp_all add: inner_loop_length)
  have row: "length (?g ! k) = length (g ! k)" for k
    by (induction m) (simp_all add: inner_loop_row_length)
  show ?case
  proof (cases "i = m")
    case True
    from Suc.prems have "m < length ?g" "r \<le> length (?g ! m)"
      by (simp_all add: len row)
    with True Suc.prems show ?thesis
      by (simp add: inner_loop_cell)
  next
    case False
    with Suc.prems have "i < m" by simp
    with Suc have "?g ! i ! j = f i j" by simp
    with False show ?thesis by (simp add: inner_loop_other)
  qed
qed

lemma MapAgent_act_cell:
  assumes "grid_ok s" and "i < cols s" and "j < rows s"
  shows "MapAgent_act s mode noise ! i ! j = cell_comfort s mode noise i j"
proof -
  from assms(1) have "cols s \<le> length (comfortMap s)"
    and "\<forall>k < cols s. rows s \<le> length (comfortMap s ! k)"
    by (simp_all add: grid_ok_def list_all_length)
  then show ?thesis
    unfolding MapAgent_act_def using assms(2,3) by (rule outer_loop_cell)
qed

lemma setup_grid_ok: "grid_ok setup_sketch"
  by (simp add: grid_ok_def setup_sketch_def list_all_length)

lemma outer_loop_length:
  "length (foldl (\<lambda>g i. foldl (\<lambda>g j. store_cell g i j (f i j)) g js) g is) = length g"
  by (induction "is" arbitrary: g) (simp_all add: inner_loop_length)

lemma outer_loop_row_length:
  "length (foldl (\<lambda>g i. foldl (\<lambda>g j. store_cell g i j (f i j)) g js) g is ! k) = length (g ! k)"
  by (induction "is" arbitrary: g) (simp_all add: inner_loop_row_length)

text \<open>The pass keeps the shape of the comfort map, so the shape holds in every frame.\<close>

lemma MapAgent_act_grid_ok:
  assumes "grid_ok s"
  shows "grid_ok (s\<lparr>comfortMap := MapAgent_act s mode noise\<rparr>)"
  using assms
  by (simp add: grid_ok_def list_all_length MapAgent_act_def outer_loop_length
      outer_loop_row_length)

text \<open>
  C7: for every weather mode the combination is the weighted sum of (1 - temp), eco,
  (1 - rain) and base with the weights of the spec's table, and the four weights of the mode
  add up to exactly 1. Any mode other than sunny and rain takes the heat branch, as in the
  source.
\<close>

theorem blend_weights_sum:
  "(case spec_weights mode of (w_temp, w_eco, w_rain, w_base) \<Rightarrow>
      blend mode temp eco rain base =
        w_temp * (1 - temp) + w_eco * eco + w_rain * (1 - rain) + w_base * base \<and>
      w_temp + w_eco + w_rain + w_base = 1)"
  by (simp add: spec_weights_def blend_def)

text \<open>
  C1: after the field-synthesis pass every cell of the comfort map holds a value in [0, 1],
  for every frame count, weather mode and noise function. The comfort map has the shape
  \<^verbatim>\<open>setup\<close> gives it; a positive width and more than one row keep the divisions of the
  source (by \<open>rows - 1\<close>, \<open>width * 0.4\<close> and \<open>width * 0.45\<close>) away from zero.
\<close>

theorem comfort_in_unit_interval:
  assumes "grid_ok s" and "i < cols s" and "j < rows s"
    and "0 < width s" and "1 < rows s"
  shows "0 \<le> MapAgent_act s mode noise ! i ! j \<and> MapAgent_act s mode noise ! i ! j \<le> 1"
  using assms(1-3) by (simp add: MapAgent_act_cell cell_comfort_def Let_def constrain_bounds)

theorem comfort_in_unit_interval_witness:
  "0 \<le> MapAgent_act setup_sketch ''heat'' (\<lambda>a b. 7) ! 3 ! 4 \<and>
   MapAgent_act setup_sketch ''heat'' (\<lambda>a b. 7) ! 3 ! 4 \<le> 1"
  using comfort_in_unit_interval [of setup_sketch 3 4 "''heat''" "\<lambda>a b. 7"]
  by (simp add: setup_grid_ok) (simp add: setup_sketch_def)

section \<open>Reading the field\<close>

lemma constrain_index:
  "0 < n \<Longrightarrow> nat (constrain k 0 (int n - 1)) < n"
  by (auto simp add: constrain_def)

lemma comfortAt_read_in_range:
  assumes "grid_ok s" and "0 < cols s" and "0 < rows s"
  shows "nat (constrain a 0 (int (cols s) - 1)) < length (comfortMap s) \<and>
         nat (constrain b 0 (int (rows s) - 1))
           < length (comfortMap s ! nat (constrain a 0 (int (cols s) - 1)))"
  using assms by (simp add: grid_ok_def list_all_length constrain_index)

text \<open>
  C2: outside the rectangle [0, width) x [0, height) \<^verbatim>\<open>comfortAt\<close> returns 0; inside, it
  returns the cell of the comfort map whose indices are the floors of \<open>x / cellW\<close> and
  \<open>y / cellH\<close> constrained to \<open>0 .. cols - 1\<close> and \<open>0 .. rows - 1\<close>, and that cell exists in
  a map of the shape \<^verbatim>\<open>setup\<close> builds.
\<close>

theorem comfortAt_spec:
  "(x < 0 \<or> width s \<le> x \<or> y < 0 \<or> height s \<le> y \<longrightarrow> comfortAt s x y = 0) \<and>
   (0 \<le> x \<and> x < width s \<and> 0 \<le> y \<and> y < height s \<and>
    grid_ok s \<and> 0 < cols s \<and> 0 < rows s \<longrightarrow>
      (let i = nat (constrain \<lfloor>x / cellW s\<rfloor> 0 (int (cols s) - 1));
           j = nat (constrain \<lfloor>y / cellH s\<rfloor> 0 (int (rows s) - 1))
       in i < length (comfortMap s) \<and> j < length (comfortMap s ! i) \<and>
          comfortAt s x y = comfortMap s ! i ! j))"
  using comfortAt_read_in_range [of s]
  by (auto simp add: comfortAt_def Let_def)

theorem comfortAt_spec_witness:
  "comfortAt setup_sketch (-1) 5 = 0 \<and> comfortAt setup_sketch 10 900 = 0 \<and>
   comfortAt setup_sketch 10 20 = comfortMap setup_sketch ! 1 ! 2 \<and>
   1 < length (comfortMap setup_sketch) \<and> 2 < length (comfortMap setup_sketch ! 1)"
proof -
  have i: "nat (constrain \<lfloor>10 / cellW setup_sketch\<rfloor> 0 (int (cols setup_sketch) - 1)) = 1"
    and j: "nat (constrain \<lfloor>20 / cellH setup_sketch\<rfloor> 0 (int (rows setup_sketch) - 1)) = 2"
    by (simp_all add: cellW_def cellH_def setup_sketch_def constrain_def)
  have dims: "width setup_sketch = 600" "height setup_sketch = 900"
    "0 < cols setup_sketch" "0 < rows setup_sketch"
    by (simp_all add: setup_sketch_def)
  show ?thesis
    using comfortAt_spec [of "-1" setup_sketch 5] comfortAt_spec [of 10 setup_sketch 900]
      comfortAt_spec [of 10 setup_sketch 20] setup_grid_ok
    by (simp add: i j dims Let_def)
qed

text \<open>
  C10: the test in \<^verbatim>\<open>comfortAt\<close> treats the edges differently. On the right edge
  (\<open>x = width\<close>) and on the bottom edge (\<open>y = height\<close>) the result is 0 whatever the map
  holds; on the left edge (\<open>x = 0\<close>) and on the top edge (\<open>y = 0\<close>) the result is the cell of
  column 0, or of row 0, of the comfort map, a cell that exists in a map of the shape
  \<^verbatim>\<open>setup\<close> builds.
\<close>

theorem comfortAt_edges:
  "comfortAt s (width s) y = 0 \<and> comfortAt s x (height s) = 0 \<and>
   (0 < width s \<and> 0 \<le> y \<and> y < height s \<and> grid_ok s \<and> 0 < cols s \<and> 0 < rows s \<longrightarrow>
      (let j = nat (constrain \<lfloor>y / cellH s\<rfloor> 0 (int (rows s) - 1))
       in 0 < length (comfortMap s) \<and> j < length (comfortMap s ! 0) \<and>
          comfortAt s 0 y = comfortMap s ! 0 ! j)) \<and>
   (0 < height s \<and> 0 \<le> x \<and> x < width s \<and> grid_ok s \<and> 0 < cols s \<and> 0 < rows s \<longrightarrow>
      (let i = nat (constrain \<lfloor>x / cellW s\<rfloor> 0 (int (cols s) - 1))
       in i < length (comfortMap s) \<and> 0 < length (comfortMap s ! i) \<and>
          comfortAt s x 0 = comfortMap s ! i ! 0))"
proof -
  have zero: "nat (constrain 0 0 k) = 0" for k :: int
    by (simp add: constrain_def)
  have "comfortAt s (width s) y = 0" and "comfortAt s x (height s) = 0"
    by (simp_all add: comfortAt_def)
  moreover have "comfortAt s 0 y =
      comfortMap s ! 0 ! nat (constrain \<lfloor>y / cellH s\<rfloor> 0 (int (rows s) - 1))"
    if "0 < width s" "0 \<le> y" "y < height s"
    using that by (simp add: comfortAt_def Let_def zero)
  moreover have "comfortAt s x 0 =
      comfortMap s ! nat (constrain \<lfloor>x / cellW s\<rfloor> 0 (int (cols s) - 1)) ! 0"
    if "0 < height s" "0 \<le> x" "x < width s"
    using that by (simp add: comfortAt_def Let_def zero)
  ultimately show ?thesis
    using comfortAt_read_in_range [of s 0 "\<lfloor>y / cellH s\<rfloor>"]
      comfortAt_read_in_range [of s "\<lfloor>x / cellW s\<rfloor>" 0]
    by (simp add: Let_def zero)
qed

theorem comfortAt_edges_witness:
  "comfortAt half_map 0 0 = 0.5 \<and> comfortAt half_map 600 0 = 0 \<and> comfortAt half_map 0 900 = 0"
proof -
  have "grid_ok half_map"
    by (simp add: grid_ok_def half_map_def setup_sketch_def list_all_length)
  then show ?thesis
    using comfortAt_edges [of half_map 0 0]
    by (simp add: half_map_def setup_sketch_def constrain_def)
qed

section \<open>Cyclists\<close>

subsection \<open>The speed cap\<close>

lemma mag_mult: "mag (mult v n) = \<bar>n\<bar> * mag v"
proof -
  have "vec_x v * n * (vec_x v * n) + vec_y v * n * (vec_y v * n)
      = n\<^sup>2 * (vec_x v * vec_x v + vec_y v * vec_y v)"
    by (simp add: power2_eq_square algebra_simps)
  then show ?thesis
    by (simp add: mag_def mult_def real_sqrt_mult)
qed

lemma mag_nonneg: "0 \<le> mag v"
  by (simp add: mag_def)

lemma mag_normalize: "mag v \<noteq> 0 \<Longrightarrow> mag (normalize_vec v) = 1"
  using mag_nonneg [of v] by (simp add: normalize_vec_def Let_def mag_mult)

lemma speed_limit: "mag (if mag v > 2 then mult (normalize_vec v) 2 else v) \<le> 2"
  by (simp add: mag_mult mag_normalize)

lemma decide_result:
  assumes "perceivedGradient c = Some pg"
  shows "\<exists>v. decide c r1 r2 = Inr (c\<lparr>vel := v\<rparr>) \<and> mag v \<le> 2"
proof -
  let ?g = "normalize_vec (if mag pg < 0.0005 then createVector r1 r2 else pg)"
  let ?v = "add (mult (vel c) 0.75) (mult ?g 0.25)"
  let ?w = "if mag ?v > 2 then mult (normalize_vec ?v) 2 else ?v"
  from assms have "decide c r1 r2 = Inr (c\<lparr>vel := ?w\<rparr>)"
    by (simp add: decide_def Let_def)
  moreover have "mag ?w \<le> 2" by (rule speed_limit)
  ultimately show ?thesis by blast
qed

lemma mag_components: "\<bar>vec_x v\<bar> \<le> mag v" "\<bar>vec_y v\<bar> \<le> mag v"
proof -
  have "\<bar>vec_x v\<bar> = sqrt (vec_x v * vec_x v)" and "\<bar>vec_y v\<bar> = sqrt (vec_y v * vec_y v)"
    by simp_all
  then show "\<bar>vec_x v\<bar> \<le> mag v" "\<bar>vec_y v\<bar> \<le> mag v"
    unfolding mag_def by (simp_all only: real_sqrt_le_iff) simp_all
qed

lemma decide_keeps:
  assumes "decide c r1 r2 = Inr c1"
  shows "cyc_x c1 = cyc_x c \<and> cyc_y c1 = cyc_y c \<and> localComfort c1 = localComfort c \<and>
    trail c1 = trail c \<and> mag (vel c1) \<le> 2"
proof -
  from assms obtain pg where pg: "perceivedGradient c = Some pg"
    by (cases "perceivedGradient c") (simp_all add: decide_def)
  then obtain v where "decide c r1 r2 = Inr (c\<lparr>vel := v\<rparr>)" and "mag v \<le> 2"
    using decide_result by blast
  with assms show ?thesis by auto
qed

text \<open>
  C3: once \<^verbatim>\<open>perceive\<close> has stored a gradient, \<^verbatim>\<open>decide\<close> returns and leaves a
  velocity of magnitude at most 2, whatever the old velocity, the gradient and the two values
  drawn for the wander direction are; this covers the flat field, where the drawn vector
  replaces the gradient.
\<close>

theorem decide_speed_cap:
  "perceivedGradient c = Some pg \<Longrightarrow>
     \<exists>c'. decide c r1 r2 = Inr c' \<and> mag (vel c') \<le> 2"
  using speed_limit by (simp add: decide_def Let_def)

theorem decide_speed_cap_witness:
  "\<exists>c'. decide fast_rider 0.5 (-0.5) = Inr c' \<and> mag (vel c') \<le> 2"
  using decide_speed_cap [of fast_rider "createVector 0 0" "0.5" "-0.5"]
  by (simp add: fast_rider_def)

subsection \<open>The margin\<close>

text \<open>
  C5: when the move of a frame ends exactly at \<open>x = width + 40\<close>, that frame respawns the
  cyclist. The comparison with the margin is strict and does not fire at this position; the
  velocity is capped at 2, so the move started at \<open>x\<close> of at least \<open>width + 38\<close>, outside
  the canvas, where \<^verbatim>\<open>perceive\<close> sampled the comfort 0, which is below 0.18.
\<close>

theorem frame_respawns_at_margin:
  assumes "decide (perceive s c) (wander_x fd) (wander_y fd) = Inr c1"
    and "cyc_x (act_move c1) = width s + 40"
  shows "localComfort (act_move c1) = Some 0 \<and> respawn_cond s (act_move c1) \<and>
    Cyclist_frame s c fd = respawn s (act_move c1) (on_respawn fd)"
proof -
  from assms(1) have keep: "cyc_x c1 = cyc_x (perceive s c)" "cyc_y c1 = cyc_y (perceive s c)"
    "localComfort c1 = localComfort (perceive s c)" "mag (vel c1) \<le> 2"
    by (simp_all add: decide_keeps)
  have per: "cyc_x (perceive s c) = cyc_x c"
    "localComfort (perceive s c) = Some (comfortAt s (cyc_x c) (cyc_y c))"
    by (simp_all add: perceive_def Let_def)
  have "cyc_x (act_move c1) = cyc_x c1 + vec_x (vel c1)"
    by (simp add: act_move_def Let_def)
  with assms(2) keep(1) per(1) have "cyc_x c = width s + 40 - vec_x (vel c1)" by simp
  moreover from keep(4) mag_components(1) [of "vel c1"] have "vec_x (vel c1) \<le> 2" by linarith
  ultimately have "width s \<le> cyc_x c" by simp
  then have "comfortAt s (cyc_x c) (cyc_y c) = 0"
    by (simp add: comfortAt_def)
  with keep(3) per(2) have lc: "localComfort (act_move c1) = Some 0"
    by (simp add: act_move_def Let_def)
  then have cond: "respawn_cond s (act_move c1)"
    by (simp add: respawn_cond_def)
  with assms(1) have "Cyclist_frame s c fd = respawn s (act_move c1) (on_respawn fd)"
    by (simp add: Cyclist_frame_def act_def Let_def)
  with lc cond show ?thesis by simp
qed

theorem frame_respawns_at_margin_witness:
  "cyc_x margin_rider_moved = 640 \<and> localComfort margin_rider_moved = Some 0 \<and>
   respawn_cond setup_sketch margin_rider_moved \<and>
   Cyclist_frame setup_sketch margin_rider calm_frame
     = respawn setup_sketch margin_rider_moved still_draws"
proof -
  let ?seen = "margin_rider\<lparr>perceivedGradient := Some (createVector 0 0), localComfort := Some 0\<rparr>"
  have out: "comfortAt setup_sketch x y = 0" if "600 \<le> x" for x y
    using that by (simp add: comfortAt_def setup_sketch_def)
  have per: "perceive setup_sketch margin_rider = ?seen"
    by (simp add: perceive_def Let_def out margin_rider_def createVector_def)
  have dec: "decide ?seen 0 0 = Inr (?seen\<lparr>vel := createVector 1 0\<rparr>)"
    by (simp add: decide_def margin_rider_def createVector_def mag_def normalize_vec_def
        mult_def add_def Let_def)
  have mv: "act_move (?seen\<lparr>vel := createVector 1 0\<rparr>) = margin_rider_moved"
    by (simp add: act_move_def margin_rider_def margin_rider_moved_def createVector_def
        trail_push_def Let_def)
  have w: "width setup_sketch + 40 = 640" by (simp add: setup_sketch_def)
  have fd: "wander_x calm_frame = 0" "wander_y calm_frame = 0" "on_respawn calm_frame = still_draws"
    by (simp_all add: calm_frame_def)
  have x: "cyc_x margin_rider_moved = 640" by (simp add: margin_rider_moved_def)
  show ?thesis
    using frame_respawns_at_margin [of setup_sketch margin_rider calm_frame
        "?seen\<lparr>vel := createVector 1 0\<rparr>"]
    by (simp only: per fd dec mv w x)
qed

subsection \<open>The trail\<close>

lemma trail_push_length: "length t \<le> 80 \<Longrightarrow> length (trail_push t p) \<le> 80"
  by (simp add: trail_push_def Let_def)

lemma respawn_trail: "respawn s c d = Inr c' \<Longrightarrow> trail c' = []"
  by (auto simp add: respawn_def Let_def split: if_splits)

lemma act_trail_length:
  "length (trail c) \<le> 80 \<Longrightarrow> act s c d = Inr c' \<Longrightarrow> length (trail c') \<le> 80"
  by (auto simp add: act_def act_move_def Let_def trail_push_length respawn_trail split: if_splits)

lemma decide_trail: "decide c r1 r2 = Inr c' \<Longrightarrow> trail c' = trail c"
  by (auto simp add: decide_def Let_def split: option.splits)

lemma perceive_trail: "trail (perceive s c) = trail c"
  by (simp add: perceive_def Let_def)

lemma frame_trail_length:
  "length (trail c) \<le> 80 \<Longrightarrow> Cyclist_frame s c d = Inr c' \<Longrightarrow> length (trail c') \<le> 80"
proof -
  assume len: "length (trail c) \<le> 80" and fr: "Cyclist_frame s c d = Inr c'"
  from fr obtain c1 where dec: "decide (perceive s c) (wander_x d) (wander_y d) = Inr c1"
    and ac: "act s c1 (on_respawn d) = Inr c'"
    by (auto simp add: Cyclist_frame_def split: sum.splits)
  from dec have "trail c1 = trail c" by (simp add: decide_trail perceive_trail)
  with len have "length (trail c1) \<le> 80" by simp
  then show ?thesis using ac by (rule act_trail_length)
qed

lemma frames_trail_length:
  "length (trail c) \<le> 80 \<Longrightarrow> Cyclist_frames c fs = Inr c' \<Longrightarrow> length (trail c') \<le> 80"
proof (induction fs arbitrary: c)
  case Nil
  then show ?case by simp
next
  case (Cons f fs)
  obtain s d where f: "f = (s, d)" by (cases f)
  from Cons.prems(2) obtain c1 where c1: "Cyclist_frame s c d = Inr c1"
    and rest: "Cyclist_frames c1 fs = Inr c'"
    by (auto simp add: f split: sum.splits)
  from Cons.prems(1) c1 have "length (trail c1) \<le> 80" by (rule frame_trail_length)
  then show ?case using rest by (rule Cons.IH)
qed

lemma appends_short:
  "length ps \<le> 80 \<Longrightarrow> foldl trail_push [] ps = ps"
proof (induction ps rule: rev_induct)
  case Nil
  show ?case by simp
next
  case (snoc p ps)
  then show ?case by (simp add: trail_push_def Let_def)
qed

lemma appends_81: 
  assumes "length ps = 81"
  shows "foldl trail_push [] ps = tl ps"
proof -
  from assms obtain qs q where ps: "ps = qs @ [q]" and qs: "length qs = 80"
    by (cases ps rule: rev_cases) auto
  then have "foldl trail_push [] qs = qs" by (simp add: appends_short)
  with ps qs show ?thesis by (simp add: trail_push_def Let_def)
qed

lemma act_appends:
  assumes "\<not> respawn_cond s (act_move c)"
  shows "act s c d = Inr (act_move c) \<and>
    trail (act_move c) =
      trail_push (trail c) \<lparr>pt_x = cyc_x c + vec_x (vel c), pt_y = cyc_y c + vec_y (vel c)\<rparr> \<and>
    cyc_x (act_move c) = cyc_x c + vec_x (vel c) \<and> cyc_y (act_move c) = cyc_y c + vec_y (vel c)"
  using assms by (simp add: act_def act_move_def Let_def)

lemma no_respawn_run:
  assumes "no_respawn c fs"
  shows "\<exists>c'. Cyclist_frames c fs = Inr c' \<and>
    trail c' = foldl trail_push (trail c) (Cyclist_path c fs) \<and>
    length (Cyclist_path c fs) = length fs"
  using assms
proof (induction fs arbitrary: c)
  case Nil
  then show ?case by simp
next
  case (Cons f fs)
  obtain s d where f: "f = (s, d)" by (cases f)
  from Cons.prems obtain c1 where dec: "decide (perceive s c) (wander_x d) (wander_y d) = Inr c1"
    and keep: "\<not> respawn_cond s (act_move c1)" and rest: "no_respawn (act_move c1) fs"
    by (auto simp add: f split: sum.splits)
  from keep have ac: "act s c1 (on_respawn d) = Inr (act_move c1)"
    and tr: "trail (act_move c1) = trail_push (trail c1)
      \<lparr>pt_x = cyc_x c1 + vec_x (vel c1), pt_y = cyc_y c1 + vec_y (vel c1)\<rparr>"
    and pos: "cyc_x (act_move c1) = cyc_x c1 + vec_x (vel c1)"
      "cyc_y (act_move c1) = cyc_y c1 + vec_y (vel c1)"
    by (simp_all add: act_appends)
  from dec have "trail c1 = trail c" by (simp add: decide_trail perceive_trail)
  with tr pos have tr': "trail (act_move c1) =
      trail_push (trail c) \<lparr>pt_x = cyc_x (act_move c1), pt_y = cyc_y (act_move c1)\<rparr>"
    by simp
  from dec ac have fr: "Cyclist_frame s c d = Inr (act_move c1)"
    by (simp add: Cyclist_frame_def)
  from rest obtain c' where "Cyclist_frames (act_move c1) fs = Inr c'"
    and "trail c' = foldl trail_push (trail (act_move c1)) (Cyclist_path (act_move c1) fs)"
    and "length (Cyclist_path (act_move c1) fs) = length fs"
    using Cons.IH by blast
  with fr tr' show ?case by (simp add: f)
qed

lemma no_respawn_81:
  assumes "no_respawn c fs" and "trail c = []" and "length fs = 81"
  shows "\<exists>c'. Cyclist_frames c fs = Inr c' \<and> length (trail c') = 80 \<and>
    trail c' = tl (Cyclist_path c fs) \<and>
    (distinct (Cyclist_path c fs) \<longrightarrow> hd (Cyclist_path c fs) \<notin> set (trail c'))"
proof -
  from assms(1) obtain c' where run: "Cyclist_frames c fs = Inr c'"
    and tr: "trail c' = foldl trail_push (trail c) (Cyclist_path c fs)"
    and len: "length (Cyclist_path c fs) = length fs"
    using no_respawn_run by blast
  from len assms(3) have l81: "length (Cyclist_path c fs) = 81" by simp
  with tr assms(2) have tl: "trail c' = tl (Cyclist_path c fs)" by (simp add: appends_81)
  with l81 have "length (trail c') = 80" by simp
  moreover have "hd (Cyclist_path c fs) \<notin> set (tl (Cyclist_path c fs))"
    if "distinct (Cyclist_path c fs)"
    using that l81 by (cases "Cyclist_path c fs") auto
  ultimately show ?thesis using run tl by simp
qed

text \<open>
  C6: a cyclist made by the constructor and run through any number of frames has a trail of
  at most 80 entries. A call of \<^verbatim>\<open>act\<close> that does not respawn appends the new position
  to the trail, evicting the oldest entry beyond 80. So a run of frames without a respawn
  leaves the trail that these appends build from the positions of the run, and after 81 such
  frames from an empty trail the trail holds the positions of frames 2 to 81 in order: the
  first appended entry is the one evicted, and it is no longer in the trail when the 81
  positions differ from each other.
\<close>

theorem trail_bounded_fifo:
  "(Cyclist_new s d0 = Inr c0 \<and> Cyclist_frames c0 fs = Inr c \<longrightarrow> length (trail c) \<le> 80) \<and>
   (\<not> respawn_cond s1 (act_move c1) \<longrightarrow>
      act s1 c1 d = Inr (act_move c1) \<and>
      trail (act_move c1) =
        trail_push (trail c1)
          \<lparr>pt_x = cyc_x c1 + vec_x (vel c1), pt_y = cyc_y c1 + vec_y (vel c1)\<rparr>) \<and>
   (no_respawn c2 fs2 \<longrightarrow>
      (\<exists>c'. Cyclist_frames c2 fs2 = Inr c' \<and> length (Cyclist_path c2 fs2) = length fs2 \<and>
         trail c' = foldl trail_push (trail c2) (Cyclist_path c2 fs2))) \<and>
   (no_respawn c2 fs2 \<and> trail c2 = [] \<and> length fs2 = 81 \<longrightarrow>
      (\<exists>c'. Cyclist_frames c2 fs2 = Inr c' \<and> length (trail c') = 80 \<and>
         trail c' = tl (Cyclist_path c2 fs2) \<and>
         (distinct (Cyclist_path c2 fs2) \<longrightarrow> hd (Cyclist_path c2 fs2) \<notin> set (trail c'))))"
proof -
  have "length (trail c) \<le> 80"
    if new: "Cyclist_new s d0 = Inr c0" and run: "Cyclist_frames c0 fs = Inr c"
  proof -
    from new have "trail c0 = []" unfolding Cyclist_new_def by (rule respawn_trail)
    then have "length (trail c0) \<le> 80" by simp
    then show ?thesis using run by (rule frames_trail_length)
  qed
  moreover have "act s1 c1 d = Inr (act_move c1) \<and>
      trail (act_move c1) =
        trail_push (trail c1)
          \<lparr>pt_x = cyc_x c1 + vec_x (vel c1), pt_y = cyc_y c1 + vec_y (vel c1)\<rparr>"
    if "\<not> respawn_cond s1 (act_move c1)"
    using that by (simp add: act_appends)
  moreover have "\<exists>c'. Cyclist_frames c2 fs2 = Inr c' \<and>
      length (Cyclist_path c2 fs2) = length fs2 \<and>
      trail c' = foldl trail_push (trail c2) (Cyclist_path c2 fs2)"
    if "no_respawn c2 fs2"
    using no_respawn_run [OF that] by blast
  moreover have "\<exists>c'. Cyclist_frames c2 fs2 = Inr c' \<and> length (trail c') = 80 \<and>
      trail c' = tl (Cyclist_path c2 fs2) \<and>
      (distinct (Cyclist_path c2 fs2) \<longrightarrow> hd (Cyclist_path c2 fs2) \<notin> set (trail c'))"
    if "no_respawn c2 fs2" "trail c2 = []" "length fs2 = 81"
    using that by (rule no_respawn_81)
  ultimately show ?thesis by blast
qed

lemma half_map_inside:
  "0 \<le> x \<Longrightarrow> x < 600 \<Longrightarrow> 0 \<le> y \<Longrightarrow> y < 900 \<Longrightarrow> comfortAt half_map x y = 0.5"
proof -
  assume a: "0 \<le> x" "x < 600" "0 \<le> y" "y < 900"
  have "nat (constrain \<lfloor>x / cellW half_map\<rfloor> 0 (int (cols half_map) - 1)) < 70"
    "nat (constrain \<lfloor>y / cellH half_map\<rfloor> 0 (int (rows half_map) - 1)) < 105"
    by (simp_all add: constrain_def half_map_def setup_sketch_def)
  with a show ?thesis
    by (simp add: comfortAt_def Let_def half_map_def setup_sketch_def)
qed

lemma normalize_along_x:
  assumes "0 < a"
  shows "normalize_vec (createVector a 0) = createVector 1 0"
proof -
  from assms have "mag (createVector a 0) = a"
    by (simp add: mag_def createVector_def)
  with assms show ?thesis
    by (simp add: normalize_vec_def Let_def mult_def createVector_def)
qed

lemma mag_along_x: "0 \<le> a \<Longrightarrow> mag (createVector a 0) = a"
  by (simp add: mag_def createVector_def)

lemma drift_step:
  assumes "190 \<le> cyc_x c" and "cyc_x c \<le> 400" and "cyc_y c = 225"
    and "vel c = createVector v 0" and "0 \<le> v" and "v \<le> 1"
  shows "\<exists>c1. decide (perceive half_map c) (wander_x drift_frame) (wander_y drift_frame) = Inr c1 \<and>
    \<not> respawn_cond half_map (act_move c1) \<and>
    cyc_x (act_move c1) = cyc_x c + (v * 3 / 4 + 1 / 4) \<and> cyc_y (act_move c1) = 225 \<and>
    vel (act_move c1) = createVector (v * 3 / 4 + 1 / 4) 0"
proof -
  let ?w = "v * 3 / 4 + 1 / 4"
  let ?seen = "c\<lparr>perceivedGradient := Some (createVector 0 0), localComfort := Some (1 / 2)\<rparr>"
  let ?c1 = "?seen\<lparr>vel := createVector ?w 0\<rparr>"
  from assms(1-3) have per: "perceive half_map c = ?seen"
    by (simp add: perceive_def Let_def half_map_inside)
  have flat: "mag (createVector 0 0) < 0.0005"
    by (simp add: mag_along_x)
  have dir: "normalize_vec (createVector (1 / 4) 0) = createVector 1 0"
    by (rule normalize_along_x) simp
  have blend: "add (mult (createVector v 0) (3 / 4)) (mult (createVector 1 0) (1 / 4))
      = createVector ?w 0"
    by (simp add: add_def mult_def createVector_def)
  from assms(5,6) have "mag (createVector ?w 0) = ?w"
    by (simp add: mag_along_x)
  with assms(6) have slow: "\<not> 2 < mag (createVector ?w 0)"
    by simp
  have dec: "decide ?seen (1 / 4) 0 = Inr ?c1"
    using flat slow by (simp add: decide_def Let_def assms(4) dir blend)
  have mv: "cyc_x (act_move ?c1) = cyc_x c + ?w" "cyc_y (act_move ?c1) = 225"
    "vel (act_move ?c1) = createVector ?w 0"
    and lc: "localComfort (act_move ?c1) = Some (1 / 2)"
    by (simp_all add: act_move_def Let_def createVector_def assms(3))
  have dims: "width half_map = 600" "height half_map = 900"
    by (simp_all add: half_map_def setup_sketch_def)
  from assms(1,2,5,6) have "\<not> respawn_cond half_map (act_move ?c1)"
    unfolding respawn_cond_def mv lc dims by simp
  moreover have "wander_x drift_frame = 1 / 4" "wander_y drift_frame = 0"
    by (simp_all add: drift_frame_def)
  ultimately show ?thesis
    using per dec mv by (intro exI [of _ ?c1]) (simp only:, simp)
qed

lemma drift_run:
  assumes "190 \<le> cyc_x c" and "cyc_x c + real n \<le> 401" and "cyc_y c = 225"
    and "vel c = createVector v 0" and "0 \<le> v" and "v \<le> 1"
  shows "no_respawn c (replicate n (half_map, drift_frame)) \<and>
    sorted_wrt (<) (map pt_x (Cyclist_path c (replicate n (half_map, drift_frame)))) \<and>
    list_all (\<lambda>p. cyc_x c < pt_x p) (Cyclist_path c (replicate n (half_map, drift_frame)))"
  using assms
proof (induction n arbitrary: c v)
  case 0
  show ?case by simp
next
  case (Suc n)
  let ?fs = "replicate n (half_map, drift_frame)"
  let ?w = "v * 3 / 4 + 1 / 4"
  from Suc.prems have "cyc_x c \<le> 400" by simp
  with Suc.prems obtain c1
    where dec: "decide (perceive half_map c) (wander_x drift_frame) (wander_y drift_frame) = Inr c1"
      and keep: "\<not> respawn_cond half_map (act_move c1)"
      and x: "cyc_x (act_move c1) = cyc_x c + ?w" and y: "cyc_y (act_move c1) = 225"
      and vel: "vel (act_move c1) = createVector ?w 0"
    using drift_step [of c v] by blast
  from Suc.prems(5,6) have w: "0 \<le> ?w" "?w \<le> 1" "0 < ?w" by simp_all
  from Suc.prems(1,2) x w have "190 \<le> cyc_x (act_move c1)" "cyc_x (act_move c1) + real n \<le> 401"
    by simp_all
  then have ih: "no_respawn (act_move c1) ?fs \<and>
      sorted_wrt (<) (map pt_x (Cyclist_path (act_move c1) ?fs)) \<and>
      list_all (\<lambda>p. cyc_x (act_move c1) < pt_x p) (Cyclist_path (act_move c1) ?fs)"
    using y vel w(1,2) by (rule Suc.IH)
  from keep have "act half_map c1 (on_respawn drift_frame) = Inr (act_move c1)"
    by (simp add: act_appends)
  with dec have fr: "Cyclist_frame half_map c drift_frame = Inr (act_move c1)"
    by (simp add: Cyclist_frame_def)
  from x w(3) have up: "cyc_x c < cyc_x (act_move c1)" by simp
  from ih have later: "list_all (\<lambda>p. cyc_x c < pt_x p) (Cyclist_path (act_move c1) ?fs)"
    using up by (auto simp add: list_all_iff)
  from ih dec keep fr up later show ?case
    by (simp add: list_all_iff)
qed

theorem trail_bounded_fifo_witness:
  "\<exists>c'. Cyclist_new setup_sketch still_draws = Inr new_rider \<and>
     Cyclist_frames new_rider (replicate 81 (half_map, drift_frame)) = Inr c' \<and>
     length (trail c') \<le> 80 \<and> length (trail c') = 80 \<and>
     length (Cyclist_path new_rider (replicate 81 (half_map, drift_frame))) = 81 \<and>
     trail c' = tl (Cyclist_path new_rider (replicate 81 (half_map, drift_frame))) \<and>
     hd (Cyclist_path new_rider (replicate 81 (half_map, drift_frame))) \<notin> set (trail c') \<and>
     act half_map new_rider_seen still_draws = Inr (act_move new_rider_seen) \<and>
     trail (act_move new_rider_seen) = [\<lparr>pt_x = 190, pt_y = 225\<rparr>]"
proof -
  let ?fs = "replicate 81 (half_map, drift_frame)"
  have new: "Cyclist_new setup_sketch still_draws = Inr new_rider"
    by (simp add: Cyclist_new_def respawn_def setup_sketch_def still_draws_def new_rider_def
        Let_def)
  have start: "190 \<le> cyc_x new_rider" "cyc_x new_rider + real 81 \<le> 401" "cyc_y new_rider = 225"
    "vel new_rider = createVector 0 0" "trail new_rider = []"
    by (simp_all add: new_rider_def)
  then have run: "no_respawn new_rider ?fs"
    and up: "sorted_wrt (<) (map pt_x (Cyclist_path new_rider ?fs))"
    using drift_run [of new_rider 81 0] by simp_all
  from up have "distinct (map pt_x (Cyclist_path new_rider ?fs))"
    by (simp only: strict_sorted_iff)
  then have dis: "distinct (Cyclist_path new_rider ?fs)"
    by (simp only: distinct_map)
  have len: "length ?fs = 81" by simp
  have keep: "\<not> respawn_cond half_map (act_move new_rider_seen)"
    by (simp add: respawn_cond_def act_move_def new_rider_seen_def createVector_def
        half_map_def setup_sketch_def Let_def)
  have one: "trail_push (trail new_rider_seen)
      \<lparr>pt_x = cyc_x new_rider_seen + vec_x (vel new_rider_seen),
       pt_y = cyc_y new_rider_seen + vec_y (vel new_rider_seen)\<rparr> = [\<lparr>pt_x = 190, pt_y = 225\<rparr>]"
    by (simp add: trail_push_def new_rider_seen_def createVector_def)
  from run start(5) len obtain c' where c': "Cyclist_frames new_rider ?fs = Inr c'"
    using no_respawn_81 by blast
  show ?thesis
    using trail_bounded_fifo [of setup_sketch still_draws new_rider ?fs c' half_map new_rider_seen
        still_draws new_rider ?fs] new c' run start(5) len dis keep one
    by (intro exI [of _ c']) auto
qed

section \<open>The eco term\<close>

lemma map_p5_eco: "map_p5 m 0 b 1 0 = 1 - m / b"
  by (simp add: map_p5_def)

text \<open>
  C9: with no eco-pod the loop that searches the nearest pod runs zero times and leaves its
  start value 9999, and the eco term of every cell is 0: the value that enters the blend. The
  start value maps to 0 as long as \<open>width * 0.4\<close> does not exceed it, that is up to a width of
  24997.5; the canvas of the sketch is 600 wide.
\<close>

theorem eco_without_pods:
  assumes "ecoPods s = []" and "0 < width s" and "width s \<le> 24997.5"
  shows "minPod_loop x y (ecoPods s) 9999 = 9999 \<and> eco_at s x y = 0 \<and>
    cell_comfort s mode noise i j =
      constrain
        (blend mode (map_p5 (real j) 0 (real (rows s) - 1) 1 0) 0
           (rain_at s ((real i + 0.5) * cellW s) ((real j + 0.5) * cellH s))
           (noise (real i * 0.08) (real j * 0.08))) 0 1"
proof -
  have loop: "minPod_loop x y (ecoPods s) 9999 = 9999" for x y
    by (simp add: assms(1))
  from assms(2,3) have "1 - 9999 / (width s * 0.4) \<le> 0"
    by (simp add: field_simps)
  then have "constrain (1 - 9999 / (width s * 0.4)) 0 1 = 0"
    by (simp add: constrain_def)
  then have eco: "eco_at s x y = 0" for x y
    by (simp only: eco_at_def loop map_p5_eco Let_def)
  show ?thesis
    by (simp add: loop eco cell_comfort_def Let_def)
qed

theorem eco_without_pods_witness:
  "minPod_loop 0 0 (ecoPods no_pods) 9999 = 9999 \<and> eco_at no_pods 0 0 = 0"
  using eco_without_pods [of no_pods 0 0]
  by (simp add: no_pods_def setup_sketch_def)

section \<open>Respawning\<close>

lemma still_draws_ok: "draws_ok setup_sketch still_draws"
  by (simp add: draws_ok_def setup_sketch_def still_draws_def)

text \<open>
  C4, as stated, fails in its last part. A cyclist whose stored comfort sample is 0.1 is
  respawned by \<^verbatim>\<open>act\<close>; \<^verbatim>\<open>respawn\<close> does not touch \<^verbatim>\<open>localComfort\<close>, so the
  condition that triggered the respawn still holds of the respawned cyclist.
\<close>

theorem respawn_condition_counterexample:
  "draws_ok setup_sketch still_draws \<and>
   act setup_sketch low_rider still_draws = respawn setup_sketch (act_move low_rider) still_draws \<and>
   respawn setup_sketch (act_move low_rider) still_draws = Inr low_rider_respawned \<and>
   respawn_cond setup_sketch low_rider_respawned"
proof -
  have mv: "act_move low_rider = low_rider_moved"
    by (simp add: act_move_def low_rider_def low_rider_moved_def createVector_def
        trail_push_def Let_def)
  have cond: "respawn_cond setup_sketch low_rider_moved"
    by (simp add: respawn_cond_def low_rider_moved_def)
  have re: "respawn setup_sketch low_rider_moved still_draws = Inr low_rider_respawned"
    by (simp add: respawn_def low_rider_moved_def low_rider_respawned_def setup_sketch_def
        still_draws_def Let_def)
  have "respawn_cond setup_sketch low_rider_respawned"
    by (simp add: respawn_cond_def low_rider_respawned_def)
  with cond re still_draws_ok show ?thesis
    by (simp add: act_def Let_def mv)
qed

lemma dist_p5_offset:
  fixes r t :: real
  assumes "0 \<le> r"
  shows "dist_p5 (a + cos t * r) (b + sin t * r) a b = r"
proof -
  have "(a - (a + cos t * r))\<^sup>2 + (b - (b + sin t * r))\<^sup>2 = (cos t)\<^sup>2 * r\<^sup>2 + (sin t)\<^sup>2 * r\<^sup>2"
    by (simp add: power_mult_distrib)
  also have "\<dots> = ((sin t)\<^sup>2 + (cos t)\<^sup>2) * r\<^sup>2"
    by (simp only: distrib_right add.commute)
  also have "\<dots> = r\<^sup>2" by simp
  finally show ?thesis using assms by (simp add: dist_p5_def)
qed

lemma setup_pods_inside:
  assumes "p \<in> set (ecoPods setup_sketch)"
  shows "180 \<le> pt_x p \<and> pt_x p \<le> 420 \<and> 225 \<le> pt_y p \<and> pt_y p \<le> 720"
  using assms by (auto simp add: setup_sketch_def)

subsection \<open>The frame after a respawn\<close>

lemma minPod_loop_le_start: "minPod_loop x y ps m \<le> m"
proof (induction ps arbitrary: m)
  case Nil
  show ?case by simp
next
  case (Cons p ps)
  let ?dp = "dist_p5 x y (pt_x p) (pt_y p)"
  have "minPod_loop x y ps (if ?dp < m then ?dp else m) \<le> (if ?dp < m then ?dp else m)"
    by (rule Cons.IH)
  then show ?case by (simp add: Let_def split: if_splits)
qed

lemma minPod_loop_le_dist:
  "p \<in> set ps \<Longrightarrow> minPod_loop x y ps m \<le> dist_p5 x y (pt_x p) (pt_y p)"
proof (induction ps arbitrary: m)
  case Nil
  then show ?case by simp
next
  case (Cons q ps)
  let ?dq = "dist_p5 x y (pt_x q) (pt_y q)"
  let ?m = "if ?dq < m then ?dq else m"
  show ?case
  proof (cases "p = q")
    case True
    have "minPod_loop x y ps ?m \<le> ?m" by (rule minPod_loop_le_start)
    also have "?m \<le> ?dq" by simp
    finally show ?thesis using True by (simp add: Let_def)
  next
    case False
    with Cons.prems have "p \<in> set ps" by simp
    then have "minPod_loop x y ps ?m \<le> dist_p5 x y (pt_x p) (pt_y p)" by (rule Cons.IH)
    then show ?thesis by (simp add: Let_def)
  qed
qed

lemma dist_p5_nonneg: "0 \<le> dist_p5 x y a b"
  by (simp add: dist_p5_def)

lemma eco_near_pod:
  assumes "0 < width s" and "p \<in> set (ecoPods s)"
    and "dist_p5 x y (pt_x p) (pt_y p) \<le> D"
  shows "1 - D / (width s * 0.4) \<le> eco_at s x y"
proof -
  let ?m = "minPod_loop x y (ecoPods s) 9999"
  let ?w = "width s * 0.4"
  from assms(1) have w: "0 < ?w" by simp
  from assms(2) have "?m \<le> dist_p5 x y (pt_x p) (pt_y p)" by (rule minPod_loop_le_dist)
  with assms(3) have "?m \<le> D" by simp
  with w have 1: "?m / ?w \<le> D / ?w"
    by (simp only: divide_right_mono less_imp_le)
  from assms(3) dist_p5_nonneg [of x y "pt_x p" "pt_y p"] have "0 \<le> D" by simp
  with w have 2: "0 \<le> D / ?w" by (simp only: divide_nonneg_pos)
  from 1 2 have "1 - D / ?w \<le> min (1 - ?m / ?w) 1"
    by (simp only: min_def) argo
  also have "\<dots> \<le> constrain (1 - ?m / ?w) 0 1"
    by (simp only: constrain_def max.cobounded1)
  finally show ?thesis by (simp only: eco_at_def Let_def map_p5_eco)
qed

lemma dist_p5_triangle:
  "dist_p5 x' y' a b \<le> dist_p5 x y a b + dist_p5 x' y' x y"
proof -
  have "sqrt (((a - x) + (x - x'))\<^sup>2 + ((b - y) + (y - y'))\<^sup>2)
      \<le> sqrt ((a - x)\<^sup>2 + (b - y)\<^sup>2) + sqrt ((x - x')\<^sup>2 + (y - y')\<^sup>2)"
    by (rule real_sqrt_sum_squares_triangle_ineq)
  then show ?thesis by (simp add: dist_p5_def)
qed

lemma dist_p5_small:
  assumes "\<bar>x' - x\<bar> \<le> 30 / 7" and "\<bar>y' - y\<bar> \<le> 30 / 7"
  shows "dist_p5 x' y' x y \<le> 7"
proof -
  from assms(1) have "\<bar>x - x'\<bar> \<le> \<bar>30 / 7 :: real\<bar>" by (simp add: abs_minus_commute)
  then have a: "(x - x')\<^sup>2 \<le> (30 / 7)\<^sup>2" by (simp only: abs_le_square_iff)
  from assms(2) have "\<bar>y - y'\<bar> \<le> \<bar>30 / 7 :: real\<bar>" by (simp add: abs_minus_commute)
  then have b: "(y - y')\<^sup>2 \<le> (30 / 7)\<^sup>2" by (simp only: abs_le_square_iff)
  have "(30 / 7 :: real)\<^sup>2 + (30 / 7)\<^sup>2 \<le> 7\<^sup>2" by (simp add: power2_eq_square)
  with a b have "(x - x')\<^sup>2 + (y - y')\<^sup>2 \<le> 7\<^sup>2" by linarith
  then show ?thesis unfolding dist_p5_def by (intro real_le_lsqrt) simp_all
qed

lemma cell_centre_near:
  assumes "0 \<le> x"
  shows "\<bar>(real (nat \<lfloor>x / (60 / 7)\<rfloor>) + 0.5) * (60 / 7) - x\<bar> \<le> 30 / 7"
proof -
  let ?q = "x / (60 / 7)"
  define k :: real where "k = of_int \<lfloor>?q\<rfloor>"
  from assms have "0 \<le> ?q" by simp
  then have "0 \<le> \<lfloor>?q\<rfloor>" by simp
  then have n: "real (nat \<lfloor>?q\<rfloor>) = k" by (simp add: k_def)
  have "k \<le> ?q" "?q < k + 1" unfolding k_def by linarith+
  then have lo: "k * (60 / 7) \<le> x" and hi: "x < k * (60 / 7) + 60 / 7"
    by (simp_all add: field_simps)
  have mid: "(k + 0.5) * (60 / 7) = k * (60 / 7) + 30 / 7"
    by (simp add: algebra_simps)
  define c where "c = k * (60 / 7)"
  from lo hi have "\<bar>c + 30 / 7 - x\<bar> \<le> 30 / 7"
    unfolding c_def [symmetric] by linarith
  then show ?thesis by (simp only: n mid c_def)
qed


lemma blend_floor:
  assumes "19 / 104 \<le> 1 - t" and "173 / 240 \<le> e" and "r \<le> 1" and "0 \<le> b"
  shows "0.18 \<le> blend mode t e r b"
proof -
  from assms have sunny: "0.18 \<le> 0.35 * (1 - t) + 0.35 * e + 0.20 * (1 - r) + 0.10 * b"
    and rain: "0.18 \<le> 0.15 * (1 - t) + 0.45 * e + 0.30 * (1 - r) + 0.10 * b"
    and heat: "0.18 \<le> 0.55 * (1 - t) + 0.20 * e + 0.15 * (1 - r) + 0.10 * b"
    by (simp_all, argo+)
  show ?thesis
  proof (cases "mode = ''sunny''")
    case True
    with sunny show ?thesis by (simp add: blend_def)
  next
    case False
    then show ?thesis using rain heat by (cases "mode = ''rain''") (simp_all add: blend_def)
  qed
qed

lemma constrain_floor: "a \<le> v \<Longrightarrow> a \<le> 1 \<Longrightarrow> a \<le> constrain (v::real) 0 1"
  by (simp add: constrain_def)

lemma rain_at_le_one: "rain_at s x y \<le> 1"
proof -
  have "0 \<le> sq v" for v by (simp add: sq_def)
  then show ?thesis by (simp add: rain_at_def Let_def)
qed

lemma cell_comfort_floor:
  assumes "width s = 600" and "rows s = 105" and "p \<in> set (ecoPods s)"
    and "dist_p5 ((real i + 0.5) * cellW s) ((real j + 0.5) * cellH s) (pt_x p) (pt_y p) \<le> 67"
    and "19 \<le> j" and "\<And>a b. 0 \<le> noise a b"
  shows "0.18 \<le> cell_comfort s mode noise i j"
proof -
  let ?x = "(real i + 0.5) * cellW s" and ?y = "(real j + 0.5) * cellH s"
  from assms(1) have "0 < width s" by simp
  then have "1 - 67 / (width s * 0.4) \<le> eco_at s ?x ?y"
    using assms(3,4) by (rule eco_near_pod)
  then have eco: "173 / 240 \<le> eco_at s ?x ?y"
    by (simp add: assms(1))
  from assms(5) have "19 \<le> real j" by simp
  then have temp: "19 / 104 \<le> 1 - map_p5 (real j) 0 (real (rows s) - 1) 1 0"
    by (simp add: map_p5_eco assms(2))
  have "0.18 \<le> blend mode (map_p5 (real j) 0 (real (rows s) - 1) 1 0) (eco_at s ?x ?y)
      (rain_at s ?x ?y) (noise (real i * 0.08) (real j * 0.08))"
    using temp eco rain_at_le_one assms(6) by (rule blend_floor)
  then have "0.18 \<le> constrain (blend mode (map_p5 (real j) 0 (real (rows s) - 1) 1 0)
      (eco_at s ?x ?y) (rain_at s ?x ?y) (noise (real i * 0.08) (real j * 0.08))) 0 1"
    by (rule constrain_floor) simp
  then show ?thesis by (simp only: cell_comfort_def Let_def)
qed


lemma dist_p5_abs:
  "\<bar>x - a\<bar> \<le> dist_p5 x y a b" "\<bar>y - b\<bar> \<le> dist_p5 x y a b"
proof -
  have "\<bar>a - x\<bar> = sqrt ((a - x)\<^sup>2)" and "\<bar>b - y\<bar> = sqrt ((b - y)\<^sup>2)"
    by simp_all
  then have "\<bar>a - x\<bar> \<le> dist_p5 x y a b" and "\<bar>b - y\<bar> \<le> dist_p5 x y a b"
    unfolding dist_p5_def by (simp_all only: real_sqrt_le_iff) simp_all
  then show "\<bar>x - a\<bar> \<le> dist_p5 x y a b" and "\<bar>y - b\<bar> \<le> dist_p5 x y a b"
    by (simp_all add: abs_minus_commute)
qed

lemma near_pod_inside:
  assumes "p \<in> set (ecoPods setup_sketch)" and "dist_p5 x y (pt_x p) (pt_y p) \<le> 60"
  shows "120 \<le> x \<and> x \<le> 480 \<and> 165 \<le> y \<and> y \<le> 780"
proof -
  from assms(1) have "180 \<le> pt_x p \<and> pt_x p \<le> 420 \<and> 225 \<le> pt_y p \<and> pt_y p \<le> 720"
    by (rule setup_pods_inside)
  moreover have "\<bar>x - pt_x p\<bar> \<le> 60" "\<bar>y - pt_y p\<bar> \<le> 60"
    using assms(2) by (rule order_trans [OF dist_p5_abs(1)], rule order_trans [OF dist_p5_abs(2)])
  ultimately show ?thesis by linarith
qed

lemma cell_index:
  assumes "lo * (60 / 7) \<le> x" and "x < (hi + 1) * (60 / 7)" and "0 \<le> lo" and "hi < n"
  shows "constrain \<lfloor>x / (60 / 7)\<rfloor> 0 (n - 1) = \<lfloor>x / (60 / 7)\<rfloor>
    \<and> lo \<le> \<lfloor>x / (60 / 7)\<rfloor> \<and> \<lfloor>x / (60 / 7)\<rfloor> \<le> hi"
proof -
  from assms(1) have "of_int lo \<le> x / (60 / 7)" by (simp add: field_simps)
  then have lo: "lo \<le> \<lfloor>x / (60 / 7)\<rfloor>" by (simp add: le_floor_iff)
  from assms(2) have "x / (60 / 7) < of_int (hi + 1)" by (simp add: field_simps)
  then have "\<lfloor>x / (60 / 7)\<rfloor> < hi + 1" by (simp only: floor_less_iff)
  then have hi: "\<lfloor>x / (60 / 7)\<rfloor> \<le> hi" by simp
  from lo hi assms(3,4) show ?thesis by (simp add: constrain_def)
qed

lemma fresh_sample_near_pod:
  assumes "reference_sketch s" and "\<And>a b. 0 \<le> noise a b"
    and "p \<in> set (ecoPods s)" and "dist_p5 x y (pt_x p) (pt_y p) \<le> 60"
  shows "0.18 \<le> comfortAt (s\<lparr>comfortMap := MapAgent_act s mode noise\<rparr>) x y"
proof -
  from assms(1) have ref: "width s = 600" "height s = 900" "cols s = 70" "rows s = 105"
    "ecoPods s = ecoPods setup_sketch" and ok: "grid_ok s"
    by (simp_all add: reference_sketch_def)
  have cw: "cellW s = 60 / 7" and ch: "cellH s = 60 / 7"
    by (simp_all add: cellW_def cellH_def ref)
  from assms(3,4) have pos: "120 \<le> x \<and> x \<le> 480 \<and> 165 \<le> y \<and> y \<le> 780"
    by (simp add: ref near_pod_inside)
  let ?i = "\<lfloor>x / (60 / 7)\<rfloor>" and ?j = "\<lfloor>y / (60 / 7)\<rfloor>"
  from pos have i: "constrain ?i 0 (70 - 1) = ?i \<and> 14 \<le> ?i \<and> ?i \<le> 56"
    using cell_index [of 14 x 56 70] by simp
  from pos have j: "constrain ?j 0 (105 - 1) = ?j \<and> 19 \<le> ?j \<and> ?j \<le> 91"
    using cell_index [of 19 y 91 105] by simp
  from i j have "nat ?i < 70" "nat ?j < 105" "19 \<le> nat ?j"
    by linarith+
  then have range: "nat ?i < cols s" "nat ?j < rows s" "19 \<le> nat ?j"
    by (simp_all only: ref)
  from pos i j have "comfortAt (s\<lparr>comfortMap := MapAgent_act s mode noise\<rparr>) x y
      = MapAgent_act s mode noise ! nat ?i ! nat ?j"
    by (simp add: comfortAt_def Let_def ref cellW_def cellH_def)
  also from ok range(1,2) have "\<dots> = cell_comfort s mode noise (nat ?i) (nat ?j)"
    by (rule MapAgent_act_cell)
  finally have read: "comfortAt (s\<lparr>comfortMap := MapAgent_act s mode noise\<rparr>) x y
      = cell_comfort s mode noise (nat ?i) (nat ?j)" .
  let ?cx = "(real (nat ?i) + 0.5) * cellW s" and ?cy = "(real (nat ?j) + 0.5) * cellH s"
  from pos have "0 \<le> x" "0 \<le> y" by simp_all
  then have "\<bar>?cx - x\<bar> \<le> 30 / 7" "\<bar>?cy - y\<bar> \<le> 30 / 7"
    unfolding cw ch by (simp_all only: cell_centre_near)
  then have "dist_p5 ?cx ?cy x y \<le> 7" by (rule dist_p5_small)
  moreover have "dist_p5 ?cx ?cy (pt_x p) (pt_y p)
      \<le> dist_p5 x y (pt_x p) (pt_y p) + dist_p5 ?cx ?cy x y"
    by (rule dist_p5_triangle)
  ultimately have "dist_p5 ?cx ?cy (pt_x p) (pt_y p) \<le> 67"
    using assms(4) by linarith
  with ref(1,4) assms(3) have "0.18 \<le> cell_comfort s mode noise (nat ?i) (nat ?j)"
    using range(3) assms(2) by (rule cell_comfort_floor)
  with read show ?thesis by simp
qed


lemma frame_near_pod:
  assumes "reference_sketch s" and "\<And>a b. 0 \<le> noise a b"
    and "p \<in> set (ecoPods s)" and "dist_p5 (cyc_x c) (cyc_y c) (pt_x p) (pt_y p) \<le> 60"
  shows "\<exists>c2 l. Cyclist_frame (MapAgent_frame s noise) c fd = Inr c2 \<and>
    localComfort c2 = Some l \<and> 0.18 \<le> l \<and> \<not> respawn_cond (MapAgent_frame s noise) c2 \<and>
    trail c2 = trail_push (trail c) \<lparr>pt_x = cyc_x c2, pt_y = cyc_y c2\<rparr>"
proof -
  let ?S = "MapAgent_frame s noise"
  let ?l = "comfortAt ?S (cyc_x c) (cyc_y c)"
  from assms(1) have ref: "width ?S = 600" "height ?S = 900" "ecoPods s = ecoPods setup_sketch"
    by (simp_all add: reference_sketch_def MapAgent_frame_def)
  have l: "0.18 \<le> ?l"
    unfolding MapAgent_frame_def using assms by (rule fresh_sample_near_pod)
  from assms(3,4) have pos: "120 \<le> cyc_x c \<and> cyc_x c \<le> 480 \<and> 165 \<le> cyc_y c \<and> cyc_y c \<le> 780"
    by (simp add: ref near_pod_inside)
  obtain g where per: "perceive ?S c = c\<lparr>perceivedGradient := Some g, localComfort := Some ?l\<rparr>"
    by (simp add: perceive_def Let_def)
  let ?c1 = "c\<lparr>perceivedGradient := Some g, localComfort := Some ?l\<rparr>"
  have "perceivedGradient ?c1 = Some g" by simp
  then obtain v where dec: "decide ?c1 (wander_x fd) (wander_y fd) = Inr (?c1\<lparr>vel := v\<rparr>)"
    and v: "mag v \<le> 2"
    using decide_result by blast
  let ?c2 = "act_move (?c1\<lparr>vel := v\<rparr>)"
  from v mag_components [of v] have "\<bar>vec_x v\<bar> \<le> 2" "\<bar>vec_y v\<bar> \<le> 2"
    by linarith+
  with pos have moved: "118 \<le> cyc_x ?c2 \<and> cyc_x ?c2 \<le> 482 \<and> 163 \<le> cyc_y ?c2 \<and> cyc_y ?c2 \<le> 782"
    by (simp add: act_move_def Let_def) linarith
  have lc: "localComfort ?c2 = Some ?l"
    by (simp add: act_move_def Let_def)
  from moved l have keep: "\<not> respawn_cond ?S ?c2"
    by (simp add: respawn_cond_def lc ref)
  then have "act ?S (?c1\<lparr>vel := v\<rparr>) (on_respawn fd) = Inr ?c2"
    by (simp add: act_def Let_def)
  with per dec have "Cyclist_frame ?S c fd = Inr ?c2"
    by (simp add: Cyclist_frame_def)
  moreover have "trail ?c2 = trail_push (trail c) \<lparr>pt_x = cyc_x ?c2, pt_y = cyc_y ?c2\<rparr>"
    by (simp add: act_move_def Let_def)
  ultimately show ?thesis using lc l keep by blast
qed

lemma setup_reference: "reference_sketch setup_sketch"
  using setup_grid_ok by (simp add: reference_sketch_def setup_sketch_def)

lemma MapAgent_frame_reference:
  "reference_sketch s \<Longrightarrow> reference_sketch (MapAgent_frame s noise)"
  by (simp add: reference_sketch_def MapAgent_frame_def MapAgent_act_grid_ok)

text \<open>
  C4, amended: with draws in the ranges the library promises, \<^verbatim>\<open>respawn\<close> returns a
  cyclist at distance within [10, 60] of one of the eco-pods, with an empty trail and both
  velocity components in [-1, 1], and with the stored comfort sample unchanged. On the canvas
  and eco-pods of \<^verbatim>\<open>setup\<close> the new position is within the margin of 40 on every
  side, so the condition for a respawn holds afterwards exactly when the stored sample is
  below 0.18. The next \<^verbatim>\<open>perceive\<close> replaces the sample: in a following frame on the
  grid of \<^verbatim>\<open>setup\<close>, with a noise function that is nowhere negative, the new sample is
  at least 0.18 and the cyclist is not respawned again.
\<close>

theorem respawn_amended:
  assumes "draws_ok s d"
  shows "\<exists>c' p. respawn s c d = Inr c' \<and> p \<in> set (ecoPods s) \<and>
     10 \<le> dist_p5 (cyc_x c') (cyc_y c') (pt_x p) (pt_y p) \<and>
     dist_p5 (cyc_x c') (cyc_y c') (pt_x p) (pt_y p) \<le> 60 \<and>
     trail c' = [] \<and>
     -1 \<le> vec_x (vel c') \<and> vec_x (vel c') \<le> 1 \<and>
     -1 \<le> vec_y (vel c') \<and> vec_y (vel c') \<le> 1 \<and>
     localComfort c' = localComfort c \<and>
     (reference_sketch s \<longrightarrow>
        -40 \<le> cyc_x c' \<and> cyc_x c' \<le> width s + 40 \<and>
        -40 \<le> cyc_y c' \<and> cyc_y c' \<le> height s + 40 \<and>
        respawn_cond s c' = (case localComfort c of None \<Rightarrow> False | Some l \<Rightarrow> l < 0.18)) \<and>
     (reference_sketch s \<and> reference_sketch s2 \<and> (\<forall>a b. 0 \<le> noise a b) \<longrightarrow>
        (\<exists>c2 l. Cyclist_frame (MapAgent_frame s2 noise) c' fd = Inr c2 \<and>
           localComfort c2 = Some l \<and> 0.18 \<le> l \<and>
           \<not> respawn_cond (MapAgent_frame s2 noise) c2 \<and>
           trail c2 = [\<lparr>pt_x = cyc_x c2, pt_y = cyc_y c2\<rparr>]))"
proof -
  let ?p = "ecoPods s ! rnd_pod d"
  let ?r = "rnd_radius d"
  let ?x = "pt_x ?p + cos (rnd_angle d) * ?r" and ?y = "pt_y ?p + sin (rnd_angle d) * ?r"
  let ?c = "c\<lparr>cyc_x := ?x, cyc_y := ?y,
    vel := createVector (rnd_vel_x d) (rnd_vel_y d), trail := []\<rparr>"
  from assms have k: "rnd_pod d < length (ecoPods s)" and r: "10 \<le> ?r" "?r < 60"
    and v: "-1 \<le> rnd_vel_x d" "rnd_vel_x d < 1" "-1 \<le> rnd_vel_y d" "rnd_vel_y d < 1"
    by (simp_all add: draws_ok_def)
  from k have re: "respawn s c d = Inr ?c"
    by (simp add: respawn_def Let_def)
  from k have mem: "?p \<in> set (ecoPods s)" by simp
  from r have "dist_p5 ?x ?y (pt_x ?p) (pt_y ?p) = ?r"
    by (simp add: dist_p5_offset)
  with r have d: "10 \<le> dist_p5 (cyc_x ?c) (cyc_y ?c) (pt_x ?p) (pt_y ?p)"
    "dist_p5 (cyc_x ?c) (cyc_y ?c) (pt_x ?p) (pt_y ?p) \<le> 60"
    by simp_all
  have vel: "-1 \<le> vec_x (vel ?c) \<and> vec_x (vel ?c) \<le> 1 \<and> -1 \<le> vec_y (vel ?c) \<and> vec_y (vel ?c) \<le> 1"
    using v by (simp add: createVector_def)
  have inside: "-40 \<le> cyc_x ?c \<and> cyc_x ?c \<le> width s + 40 \<and>
        -40 \<le> cyc_y ?c \<and> cyc_y ?c \<le> height s + 40 \<and>
        respawn_cond s ?c = (case localComfort c of None \<Rightarrow> False | Some l \<Rightarrow> l < 0.18)"
    if "reference_sketch s"
  proof -
    from that have ref: "width s = 600" "height s = 900" "ecoPods s = ecoPods setup_sketch"
      by (simp_all add: reference_sketch_def)
    from mem d(2) have "120 \<le> cyc_x ?c \<and> cyc_x ?c \<le> 480 \<and> 165 \<le> cyc_y ?c \<and> cyc_y ?c \<le> 780"
      unfolding ref(3) by (rule near_pod_inside)
    then show ?thesis
      by (simp add: respawn_cond_def ref)
  qed
  have later: "\<exists>c2 l. Cyclist_frame (MapAgent_frame s2 noise) ?c fd = Inr c2 \<and>
           localComfort c2 = Some l \<and> 0.18 \<le> l \<and>
           \<not> respawn_cond (MapAgent_frame s2 noise) c2 \<and>
           trail c2 = [\<lparr>pt_x = cyc_x c2, pt_y = cyc_y c2\<rparr>]"
    if s: "reference_sketch s" and s2: "reference_sketch s2" and noise: "\<forall>a b. 0 \<le> noise a b"
  proof -
    from s s2 have "ecoPods s2 = ecoPods s" by (simp add: reference_sketch_def)
    with mem have mem2: "?p \<in> set (ecoPods s2)" by simp
    from noise have "0 \<le> noise a b" for a b by simp
    with s2 have "\<exists>c2 l. Cyclist_frame (MapAgent_frame s2 noise) ?c fd = Inr c2 \<and>
        localComfort c2 = Some l \<and> 0.18 \<le> l \<and> \<not> respawn_cond (MapAgent_frame s2 noise) c2 \<and>
        trail c2 = trail_push (trail ?c) \<lparr>pt_x = cyc_x c2, pt_y = cyc_y c2\<rparr>"
      using mem2 d(2) by (rule frame_near_pod)
    then show ?thesis by (simp add: trail_push_def)
  qed
  from re mem d vel inside later show ?thesis
    by (intro exI [of _ ?c] exI [of _ ?p]) simp
qed

theorem respawn_amended_witness:
  "\<exists>c' p. respawn setup_sketch low_rider_moved still_draws = Inr c' \<and>
     p \<in> set (ecoPods setup_sketch) \<and>
     10 \<le> dist_p5 (cyc_x c') (cyc_y c') (pt_x p) (pt_y p) \<and>
     dist_p5 (cyc_x c') (cyc_y c') (pt_x p) (pt_y p) \<le> 60 \<and>
     trail c' = [] \<and>
     -1 \<le> vec_x (vel c') \<and> vec_x (vel c') \<le> 1 \<and>
     -1 \<le> vec_y (vel c') \<and> vec_y (vel c') \<le> 1 \<and>
     localComfort c' = Some 0.1 \<and>
     -40 \<le> cyc_x c' \<and> cyc_x c' \<le> 640 \<and> -40 \<le> cyc_y c' \<and> cyc_y c' \<le> 940 \<and>
     respawn_cond setup_sketch c' \<and>
     (\<exists>c2 l. Cyclist_frame (MapAgent_frame setup_sketch (\<lambda>a b. 0.5)) c' calm_frame = Inr c2 \<and>
        localComfort c2 = Some l \<and> 0.18 \<le> l \<and>
        \<not> respawn_cond (MapAgent_frame setup_sketch (\<lambda>a b. 0.5)) c2 \<and>
        trail c2 = [\<lparr>pt_x = cyc_x c2, pt_y = cyc_y c2\<rparr>])"
proof -
  have ref: "width setup_sketch = 600" "height setup_sketch = 900"
    by (simp_all add: setup_sketch_def)
  have lc: "localComfort low_rider_moved = Some 0.1"
    by (simp add: low_rider_moved_def)
  show ?thesis
    using respawn_amended [of setup_sketch still_draws low_rider_moved setup_sketch
        "\<lambda>a b. 0.5" calm_frame] still_draws_ok setup_reference
    by (simp add: ref lc)
qed

section \<open>Comfort along a row\<close>

lemma grid4_ok: "grid_ok grid4"
  by (simp add: grid_ok_def grid4_def list_all_length)

lemma sq_dist_over: "0 < r \<Longrightarrow> sq (dist_p5 x y a b / r) = ((a - x)\<^sup>2 + (b - y)\<^sup>2) / r\<^sup>2"
  by (simp add: sq_def dist_p5_def power2_eq_square)

lemma grid4_rain: "rain_at grid4 x y = exp (- (((300 - x)\<^sup>2 + (630 - y)\<^sup>2) / 270\<^sup>2))"
proof -
  have "rain_at grid4 x y = exp (- sq (dist_p5 x y 300 630 / 270))"
    by (simp add: rain_at_def grid4_def Let_def)
  then show ?thesis by (simp only: sq_dist_over [of 270] zero_less_numeral)
qed

lemma grid4_eco_far:
  assumes "240\<^sup>2 \<le> (300 - x)\<^sup>2 + (450 - y)\<^sup>2"
  shows "eco_at grid4 x y = 0"
proof -
  let ?d = "dist_p5 x y 300 450"
  from assms have d: "240 \<le> ?d"
    unfolding dist_p5_def by (rule real_le_rsqrt)
  have "minPod_loop x y (ecoPods grid4) 9999 = (if ?d < 9999 then ?d else 9999)"
    by (simp add: grid4_def Let_def)
  with d have m: "240 \<le> minPod_loop x y (ecoPods grid4) 9999"
    by simp
  have "eco_at grid4 x y = constrain (1 - minPod_loop x y (ecoPods grid4) 9999 / 240) 0 1"
    by (simp add: eco_at_def map_p5_def grid4_def Let_def)
  with m show ?thesis by (simp add: constrain_def)
qed

lemma constrain_id: "0 \<le> a \<Longrightarrow> a \<le> 1 \<Longrightarrow> constrain a 0 1 = (a::real)"
  by (simp add: constrain_def)

lemma dry_share: "0 < r \<Longrightarrow> r \<le> 1 \<Longrightarrow> constrain (0.2 * (1 - r)) 0 1 = 0.2 * (1 - (r::real))"
  by (rule constrain_id) simp_all

lemma dry_share_less:
  "a < b \<Longrightarrow> c0 = 0.2 * (1 - a) \<Longrightarrow> c1 = 0.2 * (1 - b) \<Longrightarrow> c1 < (c0::real)"
  by simp

lemma grid4_row0:
  assumes "i < 4"
  shows "cell_comfort grid4 ''sunny'' (\<lambda>a b. 0) i 0 =
    0.2 * (1 - exp (- (((300 - (real i + 0.5) * 150)\<^sup>2 + (630 - 112.5)\<^sup>2) / 270\<^sup>2)))"
proof -
  have cw: "cellW grid4 = 150" and ch: "cellH grid4 = 225"
    by (simp_all add: cellW_def cellH_def grid4_def)
  have "(240::real)\<^sup>2 \<le> (450 - 112.5)\<^sup>2" by (simp add: power2_eq_square)
  moreover have "0 \<le> (300 - (real i + 0.5) * 150)\<^sup>2" by simp
  ultimately have "240\<^sup>2 \<le> (300 - (real i + 0.5) * 150)\<^sup>2 + (450 - 112.5)\<^sup>2"
    by linarith
  then have eco: "eco_at grid4 ((real i + 0.5) * 150) 112.5 = 0"
    by (rule grid4_eco_far)
  have temp: "map_p5 0 0 (real (rows grid4) - 1) 1 0 = 1"
    by (simp add: map_p5_def)
  let ?r = "exp (- (((300 - (real i + 0.5) * 150)\<^sup>2 + (630 - 112.5)\<^sup>2) / 270\<^sup>2))"
  have r: "0 < ?r" "?r \<le> 1" by simp_all
  have "cell_comfort grid4 ''sunny'' (\<lambda>a b. 0) i 0 = constrain (0.2 * (1 - ?r)) 0 1"
    using eco temp grid4_rain [of "(real i + 0.5) * 150" "112.5"]
    by (simp add: cell_comfort_def cw ch blend_def Let_def)
  also have "\<dots> = 0.2 * (1 - ?r)"
    using r by (rule dry_share)
  finally show ?thesis .
qed

text \<open>
  C8, as stated, fails. In row 0 of the scenario, with a noise function that is constantly 0,
  the cell of column 1 is nearer to the centre than the cell of column 0, yet the cell of
  column 0 has the larger comfort: both are out of reach of the eco-pod, and the rain cloud,
  centred on the same \<open>x\<close> as the eco-pod at frame 0, is weaker at the farther cell.
\<close>

theorem row_monotone_counterexample:
  "\<bar>(1 + 0.5) * cellW grid4 - 300\<bar> < \<bar>(0 + 0.5) * cellW grid4 - 300\<bar> \<and>
   MapAgent_act grid4 ''sunny'' (\<lambda>a b. 0) ! 1 ! 0 < MapAgent_act grid4 ''sunny'' (\<lambda>a b. 0) ! 0 ! 0"
proof -
  have c: "MapAgent_act grid4 ''sunny'' (\<lambda>a b. 0) ! i ! 0 = cell_comfort grid4 ''sunny'' (\<lambda>a b. 0) i 0"
    if "i < 4" for i
    using grid4_ok that by (simp add: MapAgent_act_cell grid4_def)
  have "cell_comfort grid4 ''sunny'' (\<lambda>a b. 0) 1 0 < cell_comfort grid4 ''sunny'' (\<lambda>a b. 0) 0 0"
  proof -
    let ?r = "\<lambda>i::nat. exp (- (((300 - (real i + 0.5) * 150)\<^sup>2 + (630 - 112.5)\<^sup>2) / 270\<^sup>2))"
    have r0: "cell_comfort grid4 ''sunny'' (\<lambda>a b. 0) 0 0 = 0.2 * (1 - ?r 0)"
      by (rule grid4_row0) simp
    have r1: "cell_comfort grid4 ''sunny'' (\<lambda>a b. 0) 1 0 = 0.2 * (1 - ?r 1)"
      by (rule grid4_row0) simp
    have "?r 0 < ?r 1" by (simp add: power2_eq_square)
    then show ?thesis using r0 r1 by (rule dry_share_less)
  qed
  then have "MapAgent_act grid4 ''sunny'' (\<lambda>a b. 0) ! 1 ! 0
      < MapAgent_act grid4 ''sunny'' (\<lambda>a b. 0) ! 0 ! 0"
    by (simp add: c)
  moreover have "\<bar>(1 + 0.5) * cellW grid4 - 300\<bar> < \<bar>(0 + 0.5) * cellW grid4 - 300\<bar>"
    by (simp add: cellW_def grid4_def)
  ultimately show ?thesis by simp
qed

lemma constrain_mono: "a \<le> b \<Longrightarrow> constrain a 0 1 \<le> constrain (b::real) 0 1"
  by (simp add: constrain_def min_def max_def)

lemma gauss_step:
  fixes u v :: real
  assumes "0 \<le> u" and "0 \<le> v" and "v \<le> u + 5 / 9"
  shows "exp (- (u * u)) - exp (- (v * v)) \<le> 3 / 4"
proof -
  let ?x = "2 * u * (5 / 9) + (5 / 9) * (5 / 9)"
  let ?E = "exp (- (u * u))"
  from assms(1) have x: "0 \<le> ?x" by simp
  from assms have "v * v \<le> (u + 5 / 9) * (u + 5 / 9)"
    by (intro mult_mono) simp_all
  also have "\<dots> = u * u + ?x" by (simp add: algebra_simps)
  finally have "- (u * u + ?x) \<le> - (v * v)" by (simp only: neg_le_iff_le)
  then have "exp (- (u * u + ?x)) \<le> exp (- (v * v))" by (simp only: exp_le_cancel_iff)
  moreover have "exp (- (u * u + ?x)) = ?E * exp (- ?x)"
    by (simp only: minus_add_distrib exp_add)
  ultimately have "?E * exp (- ?x) \<le> exp (- (v * v))" by (simp only:)
  moreover have "?E * (1 - exp (- ?x)) = ?E - ?E * exp (- ?x)"
    by (simp only: right_diff_distrib mult_1_right)
  ultimately have 1: "?E - exp (- (v * v)) \<le> ?E * (1 - exp (- ?x))"
    by linarith
  have "1 + (- ?x) \<le> exp (- ?x)" by (rule exp_ge_add_one_self)
  then have "1 - exp (- ?x) \<le> ?x" by simp
  then have 2: "?E * (1 - exp (- ?x)) \<le> ?E * ?x"
    by (intro mult_left_mono) simp_all
  have "1 + u * u \<le> exp (u * u)" by (rule exp_ge_add_one_self)
  moreover have pos: "0 < 1 + u * u"
    by (rule add_pos_nonneg) simp_all
  ultimately have "inverse (exp (u * u)) \<le> inverse (1 + u * u)"
    by (simp only: le_imp_inverse_le)
  then have "?E \<le> inverse (1 + u * u)" by (simp only: exp_minus)
  with x have 3: "?E * ?x \<le> inverse (1 + u * u) * ?x"
    by (intro mult_right_mono) simp_all
  have "0 \<le> (3 / 4) * ((u - 20 / 27) * (u - 20 / 27))" by simp
  then have "?x \<le> (3 / 4) * (1 + u * u)"
    by (simp add: algebra_simps)
  with pos have "?x / (1 + u * u) \<le> 3 / 4"
    by (simp only: pos_divide_le_eq)
  moreover have "inverse (1 + u * u) * ?x = ?x / (1 + u * u)"
    by (simp only: divide_inverse mult.commute)
  ultimately have 4: "inverse (1 + u * u) * ?x \<le> 3 / 4"
    by (simp only:)
  from 1 2 3 4 show ?thesis by linarith
qed


lemma grid4_at_dims:
  "width (grid4_at n) = 600" "height (grid4_at n) = 900" "cols (grid4_at n) = 4"
  "rows (grid4_at n) = 4" "ecoPods (grid4_at n) = [\<lparr>pt_x = 300, pt_y = 450\<rparr>]"
  "cellW (grid4_at n) = 150" "cellH (grid4_at n) = 225"
  by (simp_all add: grid4_at_def grid4_def cellW_def cellH_def)

lemma grid4_at_ok: "grid_ok (grid4_at n)"
  by (simp add: grid_ok_def grid4_at_def grid4_def list_all_length)

text \<open>The rain term is a decreasing function of the distance to the centre of the cloud.\<close>

lemma rain_at_cloud:
  "\<exists>cx cy. \<forall>x y. rain_at (grid4_at n) x y = exp (- sq (dist_p5 x y cx cy / 270))"
  by (intro exI allI) (simp add: rain_at_def grid4_at_dims Let_def)

lemma dist_p5_along_row: "dist_p5 x' y x y = \<bar>x' - x\<bar>"
  by (simp add: dist_p5_def abs_minus_commute)

lemma rain_step:
  assumes "\<bar>xf - xn\<bar> = 150"
  shows "rain_at (grid4_at n) xn y - rain_at (grid4_at n) xf y \<le> 3 / 4"
proof -
  obtain cx cy where rain: "\<And>x y. rain_at (grid4_at n) x y = exp (- sq (dist_p5 x y cx cy / 270))"
    using rain_at_cloud by blast
  let ?u = "dist_p5 xn y cx cy / 270" and ?v = "dist_p5 xf y cx cy / 270"
  have "dist_p5 xf y cx cy \<le> dist_p5 xn y cx cy + dist_p5 xf y xn y"
    by (rule dist_p5_triangle)
  with assms have "dist_p5 xf y cx cy \<le> dist_p5 xn y cx cy + 150"
    by (simp add: dist_p5_along_row)
  then have "?v \<le> ?u + 5 / 9" by simp
  moreover have "0 \<le> ?u" "0 \<le> ?v" by (simp_all add: dist_p5_nonneg)
  ultimately have "exp (- (?u * ?u)) - exp (- (?v * ?v)) \<le> 3 / 4"
    by (intro gauss_step)
  then show ?thesis by (simp only: rain sq_def)
qed

lemma rain_closer:
  assumes "\<bar>x - c\<bar> < \<bar>x' - c\<bar>"
  shows "exp (- sq (dist_p5 x' y c d / 270)) < exp (- sq (dist_p5 x y c d / 270))"
proof -
  from assms have "\<bar>c - x\<bar> < \<bar>c - x'\<bar>" by (simp add: abs_minus_commute)
  then have "\<bar>c - x\<bar>\<^sup>2 < \<bar>c - x'\<bar>\<^sup>2" by (intro power_strict_mono) simp_all
  then have "(c - x)\<^sup>2 < (c - x')\<^sup>2" by (simp only: power2_abs)
  then have "dist_p5 x y c d < dist_p5 x' y c d" by (simp add: dist_p5_def)
  moreover have "0 \<le> dist_p5 x y c d" by (rule dist_p5_nonneg)
  ultimately have "dist_p5 x y c d / 270 * (dist_p5 x y c d / 270)
      < dist_p5 x' y c d / 270 * (dist_p5 x' y c d / 270)"
    by (intro mult_strict_mono') simp_all
  then show ?thesis by (simp add: sq_def)
qed

lemma rain_outer_pair:
  "rain_at (grid4_at n) 75 y < rain_at (grid4_at n) 225 y \<or>
   rain_at (grid4_at n) 525 y < rain_at (grid4_at n) 375 y"
proof -
  obtain cx cy where rain: "\<And>x y. rain_at (grid4_at n) x y = exp (- sq (dist_p5 x y cx cy / 270))"
    using rain_at_cloud by blast
  have "\<bar>225 - cx\<bar> < \<bar>75 - cx\<bar> \<or> \<bar>375 - cx\<bar> < \<bar>525 - cx\<bar>" by linarith
  then show ?thesis
    unfolding rain using rain_closer by blast
qed


lemma grid4_at_eco: "eco_at (grid4_at n) x y = eco_at grid4 x y"
  by (simp add: eco_at_def grid4_at_def)

lemma grid4_eco_near:
  assumes "(300 - x)\<^sup>2 + (450 - y)\<^sup>2 \<le> (684 / 5)\<^sup>2"
  shows "43 / 100 \<le> eco_at (grid4_at n) x y"
proof -
  from assms have "dist_p5 x y 300 450 \<le> 684 / 5"
    unfolding dist_p5_def by (intro real_le_lsqrt) simp_all
  with eco_near_pod [of "grid4_at n" "\<lparr>pt_x = 300, pt_y = 450\<rparr>" x y "684 / 5"]
  show ?thesis by (simp add: grid4_at_dims)
qed

lemma rain_at_pos: "0 < rain_at s x y"
  by (simp add: rain_at_def Let_def)

lemma sunny_step:
  assumes "ef = 0" and "43 / 100 \<le> en" and "rn - rf \<le> 3 / 4"
  shows "constrain (blend ''sunny'' t ef rf 0) 0 1 \<le> constrain (blend ''sunny'' t en rn 0) 0 1"
proof -
  from assms have "blend ''sunny'' t ef rf 0 \<le> blend ''sunny'' t en rn 0"
    by (simp add: blend_def) argo
  then show ?thesis by (rule constrain_mono)
qed

lemma sunny_dry:
  assumes "0 < r" and "r \<le> 1" and "t = 0 \<or> t = 1"
  shows "constrain (blend ''sunny'' t 0 r 0) 0 1 = 0.35 * (1 - t) + 0.20 * (1 - r)"
proof -
  have b: "blend ''sunny'' t 0 r 0 = 0.35 * (1 - t) + 0.20 * (1 - r)"
    by (simp add: blend_def)
  from assms have "0 \<le> 0.35 * (1 - t) + 0.20 * (1 - r)" "0.35 * (1 - t) + 0.20 * (1 - r) \<le> 1"
    by (elim disjE; simp; argo)+
  then show ?thesis unfolding b by (rule constrain_id)
qed

lemma grid4_inner_step:
  assumes "j = 1 \<or> j = 2" and "i = 1 \<and> k = 0 \<or> i = 2 \<and> k = 3"
  shows "cell_comfort (grid4_at n) ''sunny'' (\<lambda>a b. 0) k j
    \<le> cell_comfort (grid4_at n) ''sunny'' (\<lambda>a b. 0) i j"
proof -
  let ?y = "(real j + 0.5) * 225"
  let ?xn = "(real i + 0.5) * 150" and ?xf = "(real k + 0.5) * 150"
  from assms have far: "240\<^sup>2 \<le> (300 - ?xf)\<^sup>2 + (450 - ?y)\<^sup>2"
    by (auto simp add: power2_eq_square)
  from assms have near: "(300 - ?xn)\<^sup>2 + (450 - ?y)\<^sup>2 \<le> (684 / 5)\<^sup>2"
    by (auto simp add: power2_eq_square)
  from assms(2) have apart: "\<bar>?xf - ?xn\<bar> = 150" by auto
  from far have "eco_at (grid4_at n) ?xf ?y = 0"
    by (simp only: grid4_at_eco grid4_eco_far)
  moreover from near have "43 / 100 \<le> eco_at (grid4_at n) ?xn ?y"
    by (rule grid4_eco_near)
  moreover from apart have "rain_at (grid4_at n) ?xn ?y - rain_at (grid4_at n) ?xf ?y \<le> 3 / 4"
    by (rule rain_step)
  ultimately show ?thesis
    unfolding cell_comfort_def Let_def grid4_at_dims by (rule sunny_step)
qed

lemma grid4_outer_cell:
  assumes "j = 0 \<or> j = 3" and "i < 4"
  shows "cell_comfort (grid4_at n) ''sunny'' (\<lambda>a b. 0) i j
    = 0.35 * (real j / 3) + 0.20 * (1 - rain_at (grid4_at n) ((real i + 0.5) * 150) ((real j + 0.5) * 225))"
proof -
  let ?y = "(real j + 0.5) * 225" and ?x = "(real i + 0.5) * 150"
  let ?t = "map_p5 (real j) 0 (real 4 - 1) 1 0"
  from assms(1) have "240\<^sup>2 \<le> (450 - ?y)\<^sup>2"
    by (auto simp add: power2_eq_square)
  moreover have "0 \<le> (300 - ?x)\<^sup>2" by simp
  ultimately have "240\<^sup>2 \<le> (300 - ?x)\<^sup>2 + (450 - ?y)\<^sup>2" by linarith
  then have eco: "eco_at (grid4_at n) ?x ?y = 0"
    by (simp only: grid4_at_eco grid4_eco_far)
  from assms(1) have t: "?t = 0 \<or> ?t = 1" and t': "1 - ?t = real j / 3"
    by (auto simp add: map_p5_def)
  have "constrain (blend ''sunny'' ?t 0 (rain_at (grid4_at n) ?x ?y) 0) 0 1
      = 0.35 * (1 - ?t) + 0.20 * (1 - rain_at (grid4_at n) ?x ?y)"
    using rain_at_pos rain_at_le_one t by (rule sunny_dry)
  then show ?thesis
    unfolding cell_comfort_def Let_def grid4_at_dims eco t' .
qed


lemma grid4_outer_pair:
  assumes "j = 0 \<or> j = 3"
  shows "cell_comfort (grid4_at n) ''sunny'' (\<lambda>a b. 0) 1 j
      < cell_comfort (grid4_at n) ''sunny'' (\<lambda>a b. 0) 0 j \<or>
    cell_comfort (grid4_at n) ''sunny'' (\<lambda>a b. 0) 2 j
      < cell_comfort (grid4_at n) ''sunny'' (\<lambda>a b. 0) 3 j"
proof -
  let ?y = "(real j + 0.5) * 225"
  have c: "cell_comfort (grid4_at n) ''sunny'' (\<lambda>a b. 0) i j
      = 0.35 * (real j / 3) + 0.20 * (1 - rain_at (grid4_at n) ((real i + 0.5) * 150) ?y)"
    if "i < 4" for i
    using assms that by (rule grid4_outer_cell)
  have x: "(real 0 + 0.5) * 150 = 75" "(real 1 + 0.5) * 150 = 225"
    "(real 2 + 0.5) * 150 = 375" "(real 3 + 0.5) * 150 = 525"
    by simp_all
  have "rain_at (grid4_at n) 75 ?y < rain_at (grid4_at n) 225 ?y \<or>
      rain_at (grid4_at n) 525 ?y < rain_at (grid4_at n) 375 ?y"
    by (rule rain_outer_pair)
  then show ?thesis
    using c [of 0] c [of 1] c [of 2] c [of 3] unfolding x by auto
qed

text \<open>
  C8, amended: in the scenario, at every frame and with a noise function that is constantly 0,
  comfort does not increase on a step away from the centre within rows 1 and 2, the rows
  within reach of the eco-pod: the cell of column 0 has at most the comfort of the cell of
  column 1, and the cell of column 3 at most that of column 2. In rows 0 and 3, out of reach
  of the eco-pod, at least one of these two steps away from the centre strictly increases
  comfort, at every frame.
\<close>

theorem row_monotone_amended:
  "MapAgent_act (grid4_at n) ''sunny'' (\<lambda>a b. 0) ! 0 ! 1
     \<le> MapAgent_act (grid4_at n) ''sunny'' (\<lambda>a b. 0) ! 1 ! 1 \<and>
   MapAgent_act (grid4_at n) ''sunny'' (\<lambda>a b. 0) ! 3 ! 1
     \<le> MapAgent_act (grid4_at n) ''sunny'' (\<lambda>a b. 0) ! 2 ! 1 \<and>
   MapAgent_act (grid4_at n) ''sunny'' (\<lambda>a b. 0) ! 0 ! 2
     \<le> MapAgent_act (grid4_at n) ''sunny'' (\<lambda>a b. 0) ! 1 ! 2 \<and>
   MapAgent_act (grid4_at n) ''sunny'' (\<lambda>a b. 0) ! 3 ! 2
     \<le> MapAgent_act (grid4_at n) ''sunny'' (\<lambda>a b. 0) ! 2 ! 2 \<and>
   (MapAgent_act (grid4_at n) ''sunny'' (\<lambda>a b. 0) ! 1 ! 0
      < MapAgent_act (grid4_at n) ''sunny'' (\<lambda>a b. 0) ! 0 ! 0 \<or>
    MapAgent_act (grid4_at n) ''sunny'' (\<lambda>a b. 0) ! 2 ! 0
      < MapAgent_act (grid4_at n) ''sunny'' (\<lambda>a b. 0) ! 3 ! 0) \<and>
   (MapAgent_act (grid4_at n) ''sunny'' (\<lambda>a b. 0) ! 1 ! 3
      < MapAgent_act (grid4_at n) ''sunny'' (\<lambda>a b. 0) ! 0 ! 3 \<or>
    MapAgent_act (grid4_at n) ''sunny'' (\<lambda>a b. 0) ! 2 ! 3
      < MapAgent_act (grid4_at n) ''sunny'' (\<lambda>a b. 0) ! 3 ! 3)"
proof -
  have cell: "MapAgent_act (grid4_at n) ''sunny'' (\<lambda>a b. 0) ! i ! j
      = cell_comfort (grid4_at n) ''sunny'' (\<lambda>a b. 0) i j" if "i < 4" "j < 4" for i j
    using grid4_at_ok that by (simp add: MapAgent_act_cell grid4_at_dims)
  have "cell_comfort (grid4_at n) ''sunny'' (\<lambda>a b. 0) 0 1
      \<le> cell_comfort (grid4_at n) ''sunny'' (\<lambda>a b. 0) 1 1"
    and "cell_comfort (grid4_at n) ''sunny'' (\<lambda>a b. 0) 3 1
      \<le> cell_comfort (grid4_at n) ''sunny'' (\<lambda>a b. 0) 2 1"
    and "cell_comfort (grid4_at n) ''sunny'' (\<lambda>a b. 0) 0 2
      \<le> cell_comfort (grid4_at n) ''sunny'' (\<lambda>a b. 0) 1 2"
    and "cell_comfort (grid4_at n) ''sunny'' (\<lambda>a b. 0) 3 2
      \<le> cell_comfort (grid4_at n) ''sunny'' (\<lambda>a b. 0) 2 2"
    by (rule grid4_inner_step; simp)+
  moreover have "cell_comfort (grid4_at n) ''sunny'' (\<lambda>a b. 0) 1 0
      < cell_comfort (grid4_at n) ''sunny'' (\<lambda>a b. 0) 0 0 \<or>
    cell_comfort (grid4_at n) ''sunny'' (\<lambda>a b. 0) 2 0
      < cell_comfort (grid4_at n) ''sunny'' (\<lambda>a b. 0) 3 0"
    by (rule grid4_outer_pair) simp
  moreover have "cell_comfort (grid4_at n) ''sunny'' (\<lambda>a b. 0) 1 3
      < cell_comfort (grid4_at n) ''sunny'' (\<lambda>a b. 0) 0 3 \<or>
    cell_comfort (grid4_at n) ''sunny'' (\<lambda>a b. 0) 2 3
      < cell_comfort (grid4_at n) ''sunny'' (\<lambda>a b. 0) 3 3"
    by (rule grid4_outer_pair) simp
  ultimately show ?thesis by (simp add: cell)
qed

theorem row_monotone_amended_witness:
  "MapAgent_act (grid4_at 0) ''sunny'' (\<lambda>a b. 0) ! 0 ! 1
     \<le> MapAgent_act (grid4_at 0) ''sunny'' (\<lambda>a b. 0) ! 1 ! 1 \<and>
   MapAgent_act (grid4_at 0) ''sunny'' (\<lambda>a b. 0) ! 3 ! 2
     \<le> MapAgent_act (grid4_at 0) ''sunny'' (\<lambda>a b. 0) ! 2 ! 2 \<and>
   (MapAgent_act (grid4_at 0) ''sunny'' (\<lambda>a b. 0) ! 1 ! 0
      < MapAgent_act (grid4_at 0) ''sunny'' (\<lambda>a b. 0) ! 0 ! 0 \<or>
    MapAgent_act (grid4_at 0) ''sunny'' (\<lambda>a b. 0) ! 2 ! 0
      < MapAgent_act (grid4_at 0) ''sunny'' (\<lambda>a b. 0) ! 3 ! 0)"
  using row_monotone_amended [of 0] by blast

end
